theory Spec2Isabelle
  imports Complex_Main "HOL-Library.Multiset"
begin

section \<open>Array values: numbers, infinities and not-a-number\<close>

text \<open>
  The notebook \<^verbatim>\<open>HRSIDT-Calc-Loop.ipynb\<close> computes on arrays of double precision
  numbers. In the array values of this section a value is an exact real number, one of
  the two infinities, or not-a-number. The arithmetic follows IEEE 754 on these four
  kinds of value (a not-a-number operand gives not-a-number, \<open>0/0\<close> and \<open>\<infinity> - \<infinity>\<close> give
  not-a-number, \<open>x/0\<close> is an infinity for \<open>x \<noteq> 0\<close>), but the sum, the difference, the
  product and the quotient of two numbers are exact, and the sign of zero is not
  modelled. The rounding of double precision arithmetic is modelled in the section on
  double precision arithmetic below; what depends on the exact digits of a result, or on
  the order of the additions of a sum, is stated there.
\<close>

datatype fval = Fin real | PInf | NInf | NaN

instantiation fval :: comm_monoid_add
begin

fun plus_fval :: "fval \<Rightarrow> fval \<Rightarrow> fval" where
  "plus_fval (Fin a) (Fin b) = Fin (a + b)"
| "plus_fval NaN _ = NaN"
| "plus_fval _ NaN = NaN"
| "plus_fval PInf NInf = NaN"
| "plus_fval NInf PInf = NaN"
| "plus_fval PInf _ = PInf"
| "plus_fval _ PInf = PInf"
| "plus_fval NInf _ = NInf"
| "plus_fval _ NInf = NInf"

definition zero_fval :: fval where
  "zero_fval = Fin 0"

lemma plus_fval_assoc: "(x + y) + z = x + (y + z)" for x y z :: fval
  by (cases x; cases y; cases z; simp)

lemma plus_fval_commute: "x + y = y + x" for x y :: fval
  by (cases x; cases y; simp)

lemma plus_fval_zero: "Fin 0 + x = x"
  by (cases x; simp)

instance
proof
  fix u v w :: fval
  show "u + v + w = u + (v + w)"
    by (rule plus_fval_assoc)
  show "u + v = v + u"
    by (rule plus_fval_commute)
  show "0 + u = u"
    unfolding zero_fval_def by (rule plus_fval_zero)
qed

end

fun fneg :: "fval \<Rightarrow> fval" where
  "fneg (Fin a) = Fin (- a)"
| "fneg PInf = NInf"
| "fneg NInf = PInf"
| "fneg NaN = NaN"

definition fsub :: "fval \<Rightarrow> fval \<Rightarrow> fval" where
  "fsub x y = x + fneg y"

text \<open>The sign of a value that is not not-a-number, and the infinity of a sign
  (a zero sign stands for the undefined products and quotients).\<close>

fun fsgn :: "fval \<Rightarrow> int" where
  "fsgn (Fin a) = (if a > 0 then 1 else if a < 0 then - 1 else 0)"
| "fsgn PInf = 1"
| "fsgn NInf = - 1"
| "fsgn NaN = 0"

definition inf_of_sign :: "int \<Rightarrow> fval" where
  "inf_of_sign s = (if s > 0 then PInf else if s < 0 then NInf else NaN)"

fun fmul :: "fval \<Rightarrow> fval \<Rightarrow> fval" where
  "fmul (Fin a) (Fin b) = Fin (a * b)"
| "fmul NaN _ = NaN"
| "fmul _ NaN = NaN"
| "fmul x y = inf_of_sign (fsgn x * fsgn y)"

fun fdiv :: "fval \<Rightarrow> fval \<Rightarrow> fval" where
  "fdiv (Fin a) (Fin b) = (if b = 0 then inf_of_sign (fsgn (Fin a)) else Fin (a / b))"
| "fdiv NaN _ = NaN"
| "fdiv _ NaN = NaN"
| "fdiv (Fin a) _ = Fin 0"
| "fdiv x (Fin b) = inf_of_sign (fsgn x * (if b < 0 then - 1 else 1))"
| "fdiv _ _ = NaN"

text \<open>\<^verbatim>\<open>x ** 2\<close>\<close>

definition fsq :: "fval \<Rightarrow> fval" where
  "fsq x = fmul x x"

text \<open>Comparisons with a constant, as in \<^verbatim>\<open>obs_da <= 2.51\<close>, \<^verbatim>\<open>obs_da > 0\<close> and
  \<^verbatim>\<open>obs_da == 0\<close>: every comparison with not-a-number is false.\<close>

fun fle :: "fval \<Rightarrow> real \<Rightarrow> bool" where
  "fle (Fin a) c = (a \<le> c)"
| "fle NInf c = True"
| "fle PInf c = False"
| "fle NaN c = False"

fun fgt :: "fval \<Rightarrow> real \<Rightarrow> bool" where
  "fgt (Fin a) c = (a > c)"
| "fgt PInf c = True"
| "fgt NInf c = False"
| "fgt NaN c = False"

fun feq :: "fval \<Rightarrow> real \<Rightarrow> bool" where
  "feq (Fin a) c = (a = c)"
| "feq PInf c = False"
| "feq NInf c = False"
| "feq NaN c = False"

section \<open>Arrays and the xarray reductions the notebook uses\<close>

text \<open>
  A data array with dimensions \<open>(tdim, y, x)\<close> is kept as one series per grid cell (the
  cells \<open>(y, x)\<close> in row-major order), each series holding the cell's values along
  \<open>tdim\<close>. An array with dimensions \<open>(y, x)\<close> is a list with one value per cell. A time
  label is a year and a calendar month.
\<close>

type_synonym series = "fval list"
type_synonym field = "series list"
type_synonym cellmap = "fval list"
type_synonym timestamp = "int \<times> nat"

text \<open>\<^verbatim>\<open>da.where(cond, other=float('nan'))\<close>\<close>

definition xr_where :: "(fval \<Rightarrow> bool) \<Rightarrow> series \<Rightarrow> series" where
  "xr_where P s = map (\<lambda>v. if P v then v else NaN) s"

text \<open>\<^verbatim>\<open>da.sum(dim=...)\<close>: xarray skips not-a-number entries of a floating point array
  (\<open>skipna\<close>), so the sum of no valid entry is 0.\<close>

definition xr_sum :: "fval list \<Rightarrow> fval" where
  "xr_sum xs = sum_list (map (\<lambda>v. if v = NaN then 0 else v) xs)"

text \<open>\<^verbatim>\<open>da.count(dim)\<close>: the number of entries that are not not-a-number.\<close>

definition xr_count :: "fval list \<Rightarrow> nat" where
  "xr_count xs = length (filter (\<lambda>v. v \<noteq> NaN) xs)"

text \<open>\<^verbatim>\<open>da.mean(dim)\<close>: the sum of the valid entries over their number; \<open>0/0\<close>, that is
  not-a-number, when there is none.\<close>

definition xr_mean :: "fval list \<Rightarrow> fval" where
  "xr_mean xs = fdiv (xr_sum xs) (Fin (real (xr_count xs)))"

text \<open>\<^verbatim>\<open>ds.sel(time=slice('1978-12','2014-11'))\<close> keeps the entries whose label lies in
  the window (the labels of a monthly file are increasing).\<close>

definition in_window :: "timestamp \<Rightarrow> bool" where
  "in_window t = ((fst t > 1978 \<or> (fst t = 1978 \<and> snd t \<ge> 12)) \<and>
                  (fst t < 2014 \<or> (fst t = 2014 \<and> snd t \<le> 11)))"

definition sel_time :: "timestamp list \<Rightarrow> 'a list \<Rightarrow> 'a list" where
  "sel_time ts xs = map snd (filter (\<lambda>p. in_window (fst p)) (zip ts xs))"

section \<open>Cell 2: the reference dataset and the land mask\<close>

record ref_dataset =
  ref_grid :: "(real \<times> real) list"
  landmask :: cellmap

text \<open>\<^verbatim>\<open>mask = xr.where(ref_ds.landmask > 0, float('nan'), 1)\<close>\<close>

definition mask_of :: "ref_dataset \<Rightarrow> cellmap" where
  "mask_of ref_ds = map (\<lambda>v. if fgt v 0 then NaN else Fin 1) (landmask ref_ds)"

section \<open>Cells 3 and 3b: the observations and their temporal mean\<close>

record obs_dataset =
  obs_tdim :: "timestamp list"
  cdr_seaice_conc_monthly :: field

record baseline =
  obs_time :: "timestamp list"
  obs_da :: field
  o_mean :: cellmap

text \<open>\<^verbatim>\<open>count = obs_da.where(obs_da>0).count('tdim')\<close> and
  \<^verbatim>\<open>mincount = xr.where(count <= 20, float('nan'), 1)\<close>\<close>

definition count_tdim :: "series \<Rightarrow> nat" where
  "count_tdim s = xr_count (xr_where (\<lambda>v. fgt v 0) s)"

definition mincount :: "nat \<Rightarrow> fval" where
  "mincount n = (if n \<le> 20 then NaN else Fin 1)"

text \<open>One cell of cell 3 after the time slice: flag, count, mask out.\<close>

definition qc_series :: "series \<Rightarrow> series" where
  "qc_series s =
     (let flagged = xr_where (\<lambda>v. fle v 2.51) s;
          mc = mincount (count_tdim flagged)
      in map (\<lambda>v. fmul v mc) flagged)"

definition cell3 :: "obs_dataset \<Rightarrow> baseline" where
  "cell3 obs_ds =
     (let ts = sel_time (obs_tdim obs_ds) (obs_tdim obs_ds);
          da = map (\<lambda>s. qc_series (sel_time (obs_tdim obs_ds) s)) (cdr_seaice_conc_monthly obs_ds)
      in \<lparr>obs_time = ts, obs_da = da, o_mean = map xr_mean da\<rparr>)"

text \<open>Cell 3b holds five lines, all commented out, of which the user uncomments one to
  select a variation; the selection is modelled as a value. The cell assigns
  \<^verbatim>\<open>obs_da\<close> only: \<^verbatim>\<open>o_mean\<close> keeps the value cell 3 gave it.\<close>

datatype variation = DEF | L15 | ZERO | I015 | I1580 | I80100

fun keeps :: "variation \<Rightarrow> fval \<Rightarrow> bool" where
  "keeps DEF v = True"
| "keeps L15 v = fgt v 0.15"
| "keeps ZERO v = feq v 0"
| "keeps I015 v = (fgt v 0 \<and> fle v 0.15)"
| "keeps I1580 v = (fgt v 0.15 \<and> fle v 0.8)"
| "keeps I80100 v = (fgt v 0.80 \<and> fle v 1)"

definition cell3b :: "variation \<Rightarrow> baseline \<Rightarrow> baseline" where
  "cell3b var b = b\<lparr>obs_da := map (xr_where (keeps var)) (obs_da b)\<rparr>"

definition observations :: "variation \<Rightarrow> obs_dataset \<Rightarrow> baseline" where
  "observations var obs_ds = cell3b var (cell3 obs_ds)"

section \<open>Cell 9: the four metrics\<close>

text \<open>\<^verbatim>\<open>(obs_da-model_da) ** 2\<close> and \<^verbatim>\<open>(obs_da-o_mean) ** 2\<close>, for one cell and for
  the grid; \<^verbatim>\<open>o_mean\<close> has no time dimension and is broadcast along \<open>tdim\<close>.\<close>

definition sq_err :: "series \<Rightarrow> series \<Rightarrow> series" where
  "sq_err obs model = map2 (\<lambda>a b. fsq (fsub a b)) obs model"

definition sq_dev :: "series \<Rightarrow> fval \<Rightarrow> series" where
  "sq_dev obs mu = map (\<lambda>a. fsq (fsub a mu)) obs"

definition MEF_num :: "field \<Rightarrow> field \<Rightarrow> field" where
  "MEF_num obs model = map2 sq_err obs model"

definition MEF_den :: "field \<Rightarrow> cellmap \<Rightarrow> field" where
  "MEF_den obs mean = map2 sq_dev obs mean"

text \<open>\<^verbatim>\<open>1 - (MEF_num/MEF_den)\<close>\<close>

definition mef :: "fval \<Rightarrow> fval \<Rightarrow> fval" where
  "mef num den = fsub (Fin 1) (fdiv num den)"

text \<open>Annual: \<^verbatim>\<open>.sum(dim='tdim')\<close> of both arrays.\<close>

definition sum_tdim :: "field \<Rightarrow> cellmap" where
  "sum_tdim f = map xr_sum f"

definition mef_annual :: "field \<Rightarrow> field \<Rightarrow> cellmap \<Rightarrow> cellmap" where
  "mef_annual obs model mean =
     map2 mef (sum_tdim (MEF_num obs model)) (sum_tdim (MEF_den obs mean))"

text \<open>Monthly and seasonal: \<^verbatim>\<open>.groupby('time.month').sum(dim='tdim')\<close> and
  \<^verbatim>\<open>.groupby('time.season').sum(dim='tdim')\<close>. A group holds the time steps whose label
  has the group's key; the result has one entry per key that occurs, the keys in
  increasing order (the season names in alphabetical order). xarray derives the season
  of a month as entry \<open>(month div 3) mod 4\<close> of DJF, MAM, JJA, SON.\<close>

datatype season = DJF | JJA | MAM | SON

definition month_of :: "timestamp \<Rightarrow> nat" where
  "month_of t = snd t"

definition season_of :: "timestamp \<Rightarrow> season" where
  "season_of t = [DJF, MAM, JJA, SON] ! ((snd t div 3) mod 4)"

definition month_keys :: "timestamp list \<Rightarrow> nat list" where
  "month_keys ts = sort (remdups (map month_of ts))"

definition season_keys :: "timestamp list \<Rightarrow> season list" where
  "season_keys ts = filter (\<lambda>k. k \<in> set (map season_of ts)) [DJF, JJA, MAM, SON]"

definition group_sum :: "'k list \<Rightarrow> 'k \<Rightarrow> series \<Rightarrow> fval" where
  "group_sum keys k s = xr_sum (map snd (filter (\<lambda>p. fst p = k) (zip keys s)))"

definition groupby_sum :: "'k list \<Rightarrow> 'k list \<Rightarrow> series \<Rightarrow> ('k \<times> fval) list" where
  "groupby_sum labels keys s = map (\<lambda>k. (k, group_sum keys k s)) labels"

definition mef_grouped :: "('k \<times> fval) list \<Rightarrow> ('k \<times> fval) list \<Rightarrow> ('k \<times> fval) list" where
  "mef_grouped nums dens = map2 (\<lambda>n d. (fst n, mef (snd n) (snd d))) nums dens"

definition mef_monthly ::
  "timestamp list \<Rightarrow> field \<Rightarrow> field \<Rightarrow> cellmap \<Rightarrow> (nat \<times> fval) list list" where
  "mef_monthly ts obs model mean =
     map2 mef_grouped
       (map (groupby_sum (month_keys ts) (map month_of ts)) (MEF_num obs model))
       (map (groupby_sum (month_keys ts) (map month_of ts)) (MEF_den obs mean))"

definition mef_seasonal ::
  "timestamp list \<Rightarrow> field \<Rightarrow> field \<Rightarrow> cellmap \<Rightarrow> (season \<times> fval) list list" where
  "mef_seasonal ts obs model mean =
     map2 mef_grouped
       (map (groupby_sum (season_keys ts) (map season_of ts)) (MEF_num obs model))
       (map (groupby_sum (season_keys ts) (map season_of ts)) (MEF_den obs mean))"

text \<open>Binned: \<^verbatim>\<open>.sum(dim=['x','y'])\<close> of both arrays, one value per time step.\<close>

definition sum_xy :: "nat \<Rightarrow> field \<Rightarrow> fval list" where
  "sum_xy n f = map (\<lambda>t. xr_sum (map (\<lambda>s. s ! t) f)) [0..<n]"

definition mef_binned :: "nat \<Rightarrow> field \<Rightarrow> field \<Rightarrow> cellmap \<Rightarrow> fval list" where
  "mef_binned n obs model mean =
     map2 mef (sum_xy n (MEF_num obs model)) (sum_xy n (MEF_den obs mean))"

record metricset =
  MEF_a :: cellmap
  MEF_s :: "(season \<times> fval) list list"
  MEF_m :: "(nat \<times> fval) list list"
  MEF_b :: "fval list"
  model_name :: string

definition metrics :: "baseline \<Rightarrow> field \<Rightarrow> string \<Rightarrow> metricset" where
  "metrics b model_da model =
     \<lparr>MEF_a = mef_annual (obs_da b) model_da (o_mean b),
      MEF_s = mef_seasonal (obs_time b) (obs_da b) model_da (o_mean b),
      MEF_m = mef_monthly (obs_time b) (obs_da b) model_da (o_mean b),
      MEF_b = mef_binned (length (obs_time b)) (obs_da b) model_da (o_mean b),
      model_name = model\<rparr>"

section \<open>Cell 9: one model, from its source dataset to its metrics\<close>

datatype error = KeyError | IndexError | ValueError

record model_dataset =
  m_grid :: "(real \<times> real) list"
  m_time :: "timestamp list"
  siconc :: field

text \<open>The regridding weights and the bounding box subset are computed by libraries
  (xESMF, clisops) from the grids they are given; they are parameters of the model. A
  regridder is built from the source grid of the model, the target grid, the method and
  the periodic flag.\<close>

type_synonym bbox = "(real \<times> real) \<times> (real \<times> real)"

record regridder =
  grid_in :: "(real \<times> real) list"
  grid_out :: "(real \<times> real) list"
  regrid_method :: string
  periodic :: bool

record externals =
  subset_bbox :: "ref_dataset \<Rightarrow> bbox \<Rightarrow> ref_dataset"
  apply_weights :: "regridder \<Rightarrow> field \<Rightarrow> field"

definition xe_Regridder :: "model_dataset \<Rightarrow> ref_dataset \<Rightarrow> string \<Rightarrow> bool \<Rightarrow> regridder" where
  "xe_Regridder ds_in ds_out meth per =
     \<lparr>grid_in = m_grid ds_in, grid_out = ref_grid ds_out, regrid_method = meth, periodic = per\<rparr>"

text \<open>The regridded dataset \<^verbatim>\<open>model_rp\<close>: its coordinates (name, dimension, labels) and
  the variable \<^verbatim>\<open>siconc\<close> with the name and the size of its leading dimension. In an
  xarray dataset every dimension has one size: an operation whose result would give a
  dimension two sizes raises \<^verbatim>\<open>ValueError\<close>.\<close>

record xr_dataset =
  ds_coords :: "(string \<times> string \<times> timestamp list) list"
  sic_dim :: string
  sic_len :: nat
  sic :: field

definition dim_sizes :: "xr_dataset \<Rightarrow> (string \<times> nat) list" where
  "dim_sizes ds = (sic_dim ds, sic_len ds) # map (\<lambda>c. (fst (snd c), length (snd (snd c)))) (ds_coords ds)"

definition conflicting :: "(string \<times> nat) list \<Rightarrow> bool" where
  "conflicting ps = list_ex (\<lambda>p. list_ex (\<lambda>q. fst p = fst q \<and> snd p \<noteq> snd q) ps) ps"

definition assign_coords ::
  "xr_dataset \<Rightarrow> string \<Rightarrow> string \<times> timestamp list \<Rightarrow> error + xr_dataset" where
  "assign_coords ds name c =
     (let ds' = ds\<lparr>ds_coords := (name, c) # filter (\<lambda>c'. fst c' \<noteq> name) (ds_coords ds)\<rparr>
      in if conflicting (dim_sizes ds') then Inl ValueError else Inr ds')"

definition swap_dims :: "xr_dataset \<Rightarrow> string \<Rightarrow> string \<Rightarrow> error + xr_dataset" where
  "swap_dims ds old new =
     (if old \<notin> set (map fst (dim_sizes ds)) then Inl ValueError
      else if list_ex (\<lambda>c. fst c = new \<and> fst (snd c) \<noteq> old) (ds_coords ds) then Inl ValueError
      else
        let ren = (\<lambda>d. if d = old then new else d);
            ds' = ds\<lparr>ds_coords := map (\<lambda>c. (fst c, ren (fst (snd c)), snd (snd c))) (ds_coords ds),
                     sic_dim := ren (sic_dim ds)\<rparr>
        in if conflicting (dim_sizes ds') then Inl ValueError else Inr ds')"

text \<open>The land mask overlay:
  \<^verbatim>\<open>for i in range(0,tct,1): model_rp.siconc[i,:,:] = model_rp.siconc[i,:,:]*mask\<close>.
  The product of a time slice and a mask of another shape raises.\<close>

definition overlay_step :: "cellmap \<Rightarrow> nat \<Rightarrow> field \<Rightarrow> field" where
  "overlay_step lmask i f = map2 (\<lambda>s m. s[i := fmul (s ! i) m]) f lmask"

definition overlay_mask :: "cellmap \<Rightarrow> nat \<Rightarrow> xr_dataset \<Rightarrow> error + xr_dataset" where
  "overlay_mask lmask tct ds =
     (if 0 < tct \<and> length (sic ds) \<noteq> length lmask then Inl ValueError
      else Inr (ds\<lparr>sic := fold (overlay_step lmask) [0..<tct] (sic ds)\<rparr>))"

text \<open>The three calls that put the time labels of the observations on the model:
  \<^verbatim>\<open>assign_coords(time=obs_ds['time'])\<close>, \<^verbatim>\<open>swap_dims({'tdim': 'time'})\<close>,
  \<^verbatim>\<open>swap_dims({'time': 'tdim'})\<close>; \<^verbatim>\<open>obs_ds['time']\<close> is a variable along \<open>tdim\<close>.\<close>

definition relabel_time :: "timestamp list \<Rightarrow> xr_dataset \<Rightarrow> error + xr_dataset" where
  "relabel_time obs_t model_rp =
     (case assign_coords model_rp ''time'' (''tdim'', obs_t) of
        Inl e \<Rightarrow> Inl e
      | Inr d1 \<Rightarrow>
         (case swap_dims d1 ''tdim'' ''time'' of
            Inl e \<Rightarrow> Inl e
          | Inr d2 \<Rightarrow> swap_dims d2 ''time'' ''tdim''))"

text \<open>The time slice and the flag of values above 100. \<^verbatim>\<open>squeeze\<close> drops dimensions
  of size one other than those kept, of which the model of a dataset has none.\<close>

definition prepare_model :: "model_dataset \<Rightarrow> model_dataset" where
  "prepare_model ds =
     ds\<lparr>m_time := sel_time (m_time ds) (m_time ds),
        siconc := map (\<lambda>s. xr_where (\<lambda>v. fle v 100) (sel_time (m_time ds) s)) (siconc ds)\<rparr>"

text \<open>The regridder of the iteration, built from the model dataset and the target grid,
  and the dataset \<^verbatim>\<open>model_rp\<close> of the regridded concentrations.\<close>

definition regridded :: "externals \<Rightarrow> ref_dataset \<Rightarrow> model_dataset \<Rightarrow> xr_dataset" where
  "regridded ext ds_tgt ds =
     (let model_ds = prepare_model ds;
          reg_bil = xe_Regridder model_ds ds_tgt ''bilinear'' True;
          sic_bil = apply_weights ext reg_bil (siconc model_ds)
      in \<lparr>ds_coords = [(''time'', ''time'', m_time model_ds)], sic_dim = ''time'',
          sic_len = length (m_time model_ds), sic = sic_bil\<rparr>)"

text \<open>The overlay over the \<^verbatim>\<open>tct\<close> time steps of \<^verbatim>\<open>model_rp\<close>, the new time labels and
  the scaling to fractions.\<close>

definition normalize ::
  "externals \<Rightarrow> cellmap \<Rightarrow> timestamp list \<Rightarrow> ref_dataset \<Rightarrow> model_dataset \<Rightarrow> error + field" where
  "normalize ext lmask obs_t ds_tgt ds =
     (let model_rp = regridded ext ds_tgt ds;
          tct = sic_len model_rp
      in case overlay_mask lmask tct model_rp of
           Inl e \<Rightarrow> Inl e
         | Inr masked \<Rightarrow>
            (case relabel_time obs_t masked of
               Inl e \<Rightarrow> Inl e
             | Inr model_ds \<Rightarrow> Inr (map (map (\<lambda>v. fdiv v (Fin 100))) (sic model_ds))))"

text \<open>The rest of the loop body once the target grid is known. The differences of
  \<^verbatim>\<open>obs_da\<close> and \<^verbatim>\<open>model_da\<close> need arrays of one shape.\<close>

definition model_step ::
  "externals \<Rightarrow> cellmap \<Rightarrow> baseline \<Rightarrow> ref_dataset \<Rightarrow> model_dataset \<Rightarrow> string \<Rightarrow>
   metricset list \<Rightarrow> error + metricset list" where
  "model_step ext lmask b ds_tgt ds model MEF =
     (case normalize ext lmask (obs_time b) ds_tgt ds of
        Inl e \<Rightarrow> Inl e
      | Inr model_da \<Rightarrow>
          if length model_da \<noteq> length (obs_da b) then Inl ValueError
          else Inr (MEF @ [metrics b model_da model]))"

section \<open>Cell 9: the loops over the models\<close>

text \<open>\<^verbatim>\<open>str.split('.')\<close>\<close>

fun split_dot :: "string \<Rightarrow> string list" where
  "split_dot [] = [[]]"
| "split_dot (c # cs) =
     (if c = CHR ''.'' then [] # split_dot cs
      else (case split_dot cs of [] \<Rightarrow> [[c]] | w # ws \<Rightarrow> (c # w) # ws))"

text \<open>The first loop: \<^verbatim>\<open>source_id.append(mlist[k].split('.')[2])\<close>.\<close>

fun source_id_loop :: "string list \<Rightarrow> string list \<Rightarrow> error + string list" where
  "source_id_loop [] source_id = Inr source_id"
| "source_id_loop (key # keys) source_id =
     (let name = split_dot key
      in if 2 < length name then source_id_loop keys (source_id @ [name ! 2])
         else Inl IndexError)"

text \<open>The second loop. Iteration \<open>j\<close> reads \<^verbatim>\<open>ddict[mlist[j]]\<close> and \<^verbatim>\<open>source_id[j]\<close>,
  builds the target grid and appends the metrics of the model to \<^verbatim>\<open>MEF\<close>.\<close>

definition the_bbox :: bbox where
  "the_bbox = ((- 180, 180), (- 80, - 50))"

definition iteration ::
  "externals \<Rightarrow> ref_dataset \<Rightarrow> cellmap \<Rightarrow> baseline \<Rightarrow> (string \<times> model_dataset) list \<Rightarrow>
   string \<times> string \<Rightarrow> metricset list \<Rightarrow> error + metricset list" where
  "iteration ext ref_ds lmask b ddict km MEF =
     (case map_of ddict (fst km) of
        None \<Rightarrow> Inl KeyError
      | Some model_ds \<Rightarrow>
          (let ds_tgt = subset_bbox ext ref_ds the_bbox
           in model_step ext lmask b ds_tgt model_ds (snd km) MEF))"

fun mef_loop ::
  "externals \<Rightarrow> ref_dataset \<Rightarrow> cellmap \<Rightarrow> baseline \<Rightarrow> (string \<times> model_dataset) list \<Rightarrow>
   (string \<times> string) list \<Rightarrow> metricset list \<Rightarrow> error + metricset list" where
  "mef_loop ext ref_ds lmask b ddict [] MEF = Inr MEF"
| "mef_loop ext ref_ds lmask b ddict (km # kms) MEF =
     (case iteration ext ref_ds lmask b ddict km MEF of
        Inl e \<Rightarrow> Inl e
      | Inr MEF' \<Rightarrow> mef_loop ext ref_ds lmask b ddict kms MEF')"

text \<open>\<^verbatim>\<open>xr.concat(MEF, dim='models', coords='minimal')\<close>: the datasets in their order
  along the new dimension; the concatenation of no dataset raises.\<close>

definition xr_concat :: "metricset list \<Rightarrow> error + metricset list" where
  "xr_concat MEF = (if MEF = [] then Inl ValueError else Inr MEF)"

definition cell9 ::
  "externals \<Rightarrow> ref_dataset \<Rightarrow> cellmap \<Rightarrow> baseline \<Rightarrow> (string \<times> model_dataset) list \<Rightarrow>
   error + metricset list" where
  "cell9 ext ref_ds lmask b ddict =
     (let mlist = map fst ddict
      in case source_id_loop mlist [] of
           Inl e \<Rightarrow> Inl e
         | Inr source_id \<Rightarrow>
            (case mef_loop ext ref_ds lmask b ddict (zip mlist source_id) [] of
               Inl e \<Rightarrow> Inl e
             | Inr MEF \<Rightarrow> xr_concat MEF))"

text \<open>The variant that builds the target grid once, before the loop.\<close>

fun mef_loop_once ::
  "externals \<Rightarrow> ref_dataset \<Rightarrow> cellmap \<Rightarrow> baseline \<Rightarrow> (string \<times> model_dataset) list \<Rightarrow>
   (string \<times> string) list \<Rightarrow> metricset list \<Rightarrow> error + metricset list" where
  "mef_loop_once ext ds_tgt lmask b ddict [] MEF = Inr MEF"
| "mef_loop_once ext ds_tgt lmask b ddict (km # kms) MEF =
     (case map_of ddict (fst km) of
        None \<Rightarrow> Inl KeyError
      | Some model_ds \<Rightarrow>
         (case model_step ext lmask b ds_tgt model_ds (snd km) MEF of
            Inl e \<Rightarrow> Inl e
          | Inr MEF' \<Rightarrow> mef_loop_once ext ds_tgt lmask b ddict kms MEF'))"

definition cell9_once ::
  "externals \<Rightarrow> ref_dataset \<Rightarrow> cellmap \<Rightarrow> baseline \<Rightarrow> (string \<times> model_dataset) list \<Rightarrow>
   error + metricset list" where
  "cell9_once ext ref_ds lmask b ddict =
     (let mlist = map fst ddict;
          ds_tgt = subset_bbox ext ref_ds the_bbox
      in case source_id_loop mlist [] of
           Inl e \<Rightarrow> Inl e
         | Inr source_id \<Rightarrow>
            (case mef_loop_once ext ds_tgt lmask b ddict (zip mlist source_id) [] of
               Inl e \<Rightarrow> Inl e
             | Inr MEF \<Rightarrow> xr_concat MEF))"

text \<open>The notebook from cell 2 to cell 9.\<close>

definition notebook ::
  "externals \<Rightarrow> variation \<Rightarrow> ref_dataset \<Rightarrow> obs_dataset \<Rightarrow> (string \<times> model_dataset) list \<Rightarrow>
   error + metricset list" where
  "notebook ext var ref_ds obs_ds ddict =
     cell9 ext ref_ds (mask_of ref_ds) (observations var obs_ds) ddict"

text \<open>Cells 4b, 6 and 7. The list \<^verbatim>\<open>mods\<close> names the models that are asked for;
  \<^verbatim>\<open>cmip6.search(source_id=mods[:], ...)\<close> selects their entries in the catalogue and
  \<^verbatim>\<open>cat.to_dataset_dict(...)\<close> loads them into the dictionary \<^verbatim>\<open>ddict\<close>. The catalogue and
  the loader belong to the library \<^verbatim>\<open>intake-esm\<close>: the two calls together are a parameter
  of the run, a function from the list of the names asked for to the dictionary, given
  with its keys in the order of the dictionary.\<close>

definition mods :: "string list" where
  "mods = [''CMCC-CM2-HR4'', ''CMCC-CM2-VHR4'', ''HadGEM3-GC31-HM'', ''HadGEM3-GC31-LL'',
           ''HadGEM3-GC31-MM'', ''GFDL-CM4C192'']"

definition notebook_run ::
  "(string list \<Rightarrow> (string \<times> model_dataset) list) \<Rightarrow> externals \<Rightarrow> variation \<Rightarrow>
   ref_dataset \<Rightarrow> obs_dataset \<Rightarrow> error + metricset list" where
  "notebook_run to_dataset_dict ext var ref_ds obs_ds =
     (let ddict = to_dataset_dict mods
      in notebook ext var ref_ds obs_ds ddict)"

section \<open>Inputs of the examples\<close>

text \<open>A model that is given on the reference grid: the subset keeps the grid and the
  weights leave the field as it is.\<close>

definition same_grid :: externals where
  "same_grid = \<lparr>subset_bbox = (\<lambda>ref_ds box. ref_ds), apply_weights = (\<lambda>reg_bil f. f)\<rparr>"

text \<open>The labels of the first \<open>n\<close> months from December 1978.\<close>

definition month_labels :: "nat \<Rightarrow> timestamp list" where
  "month_labels n = map (\<lambda>i. (1978 + int ((i + 11) div 12), (i + 11) mod 12 + 1)) [0..<n]"

text \<open>The keys of the dictionary as the output of cell 8 records them, and a loader that
  delivers the entries of the models asked for under these keys, in this order, every
  entry with the dataset \<open>ds\<close>.\<close>

definition recorded_mlist :: "string list" where
  "recorded_mlist =
     [''HighResMIP.CMCC.CMCC-CM2-VHR4.hist-1950.SImon.gn'',
      ''HighResMIP.CMCC.CMCC-CM2-HR4.hist-1950.SImon.gn'',
      ''HighResMIP.MOHC.HadGEM3-GC31-LL.hist-1950.SImon.gn'',
      ''HighResMIP.MOHC.HadGEM3-GC31-HM.hist-1950.SImon.gn'',
      ''HighResMIP.MOHC.HadGEM3-GC31-MM.hist-1950.SImon.gn'',
      ''HighResMIP.NOAA-GFDL.GFDL-CM4C192.hist-1950.SImon.gn'']"

definition recorded_fetch :: "model_dataset \<Rightarrow> string list \<Rightarrow> (string \<times> model_dataset) list" where
  "recorded_fetch ds source_id =
     map (\<lambda>key. (key, ds)) (filter (\<lambda>key. split_dot key ! 2 \<in> set source_id) recorded_mlist)"

text \<open>A loader that delivers the entries in the order in which the models are asked
  for.\<close>

definition ordered_fetch :: "model_dataset \<Rightarrow> string list \<Rightarrow> (string \<times> model_dataset) list" where
  "ordered_fetch ds source_id =
     map (\<lambda>name. (''HighResMIP.X.'' @ name @ ''.hist-1950.SImon.gn'', ds)) source_id"

section \<open>The formula of the specification\<close>

text \<open>\<open>MEF = 1 - \<Sum>(obs - model)\<^sup>2 / \<Sum>(obs - obsmean)\<^sup>2\<close> with both sums over all time steps of
  a cell, as the specification words it: a term that is not-a-number makes the sum
  not-a-number.\<close>

definition spec_mef_a :: "series \<Rightarrow> series \<Rightarrow> fval \<Rightarrow> fval" where
  "spec_mef_a obs model obsmean =
     fsub (Fin 1) (fdiv (sum_list (map2 (\<lambda>a b. fsq (fsub a b)) obs model))
                        (sum_list (map (\<lambda>a. fsq (fsub a obsmean)) obs)))"

text \<open>The sums over the time steps whose term is a number, for series with missing
  values: a missing value is not-a-number in the arrays. No term of the denominator is a
  number when the mean is missing.\<close>

fun of_opt :: "real option \<Rightarrow> fval" where
  "of_opt None = NaN"
| "of_opt (Some a) = Fin a"

definition valid_sq_err :: "real option list \<Rightarrow> real option list \<Rightarrow> real list" where
  "valid_sq_err os ms =
     map (\<lambda>p. (the (fst p) - the (snd p))\<^sup>2)
       (filter (\<lambda>p. fst p \<noteq> None \<and> snd p \<noteq> None) (zip os ms))"

definition valid_sq_dev :: "real option list \<Rightarrow> real option \<Rightarrow> real list" where
  "valid_sq_dev os mu =
     (case mu of
        None \<Rightarrow> []
      | Some m \<Rightarrow> map (\<lambda>a. (the a - m)\<^sup>2) (filter (\<lambda>a. a \<noteq> None) os))"

text \<open>One minus the ratio of two such sums; where the denominator is zero the value is
  the one of the division by zero, not-a-number for \<open>0/0\<close> and minus infinity for a
  positive numerator.\<close>

definition valid_mef :: "real \<Rightarrow> real \<Rightarrow> fval" where
  "valid_mef num den =
     (if den = 0 then (if num = 0 then NaN else NInf) else Fin (1 - num / den))"

text \<open>The values a sum of squares can take: a number that is not negative, or plus
  infinity.\<close>

fun nonneg :: "fval \<Rightarrow> bool" where
  "nonneg (Fin a) = (0 \<le> a)"
| "nonneg PInf = True"
| "nonneg NInf = False"
| "nonneg NaN = False"

section \<open>The time steps of a group\<close>



section \<open>Double precision arithmetic\<close>

text \<open>
  A double precision number is a real number with a significand of 53 bits. The result
  of an arithmetic operation on two numbers is the exact result rounded to the nearest
  such number, to the one with an even significand when two are equally near. The
  exponent range is not modelled: \<open>fl\<close> is the rounding of a number whose magnitude lies
  between the smallest and the largest normal number, which is the case for all values
  below. \<open>binade n x\<close> is the exponent \<open>e\<close> of a positive number \<open>x\<close>, that is
  \<open>2 ^ e \<le> x < 2 ^ (e + 1)\<close>, found in at most \<open>n\<close> halvings or doublings; the exponents
  of the double precision numbers lie between -1074 and 1023.
\<close>

definition round_even :: "real \<Rightarrow> int" where
  "round_even x =
     (let f = \<lfloor>x\<rfloor>; d = x - of_int f
      in if d < 1 / 2 then f else if 1 / 2 < d then f + 1 else if even f then f else f + 1)"

fun binade :: "nat \<Rightarrow> real \<Rightarrow> int" where
  "binade 0 x = 0"
| "binade (Suc n) x =
     (if 2 \<le> x then binade n (x / 2) + 1 else if x < 1 then binade n (2 * x) - 1 else 0)"

definition pow2 :: "int \<Rightarrow> real" where
  "pow2 e = (if 0 \<le> e then 2 ^ nat e else 1 / 2 ^ nat (- e))"

definition fl :: "real \<Rightarrow> real" where
  "fl x = (if x = 0 then 0
           else let e = binade 1100 \<bar>x\<bar> - 52 in of_int (round_even (x / pow2 e)) * pow2 e)"

text \<open>The computations of cell 9 on series of numbers, every operation rounded:
  \<^verbatim>\<open>(obs_da-model_da) ** 2\<close> and \<^verbatim>\<open>(obs_da-o_mean) ** 2\<close>, \<^verbatim>\<open>.sum(dim='tdim')\<close> as the
  additions of the entries in the order of the time steps, \<^verbatim>\<open>.mean(dim='tdim')\<close> as this
  sum over the number of entries, \<^verbatim>\<open>1 - (MEF_num/MEF_den)\<close>, and the sums of the groups
  of \<^verbatim>\<open>groupby\<close>.\<close>

definition f64_sum :: "real list \<Rightarrow> real" where
  "f64_sum xs = foldl (\<lambda>a x. fl (a + x)) 0 xs"

definition f64_sq_diff :: "real \<Rightarrow> real \<Rightarrow> real" where
  "f64_sq_diff a b = (let d = fl (a - b) in fl (d * d))"

definition f64_sq_err :: "real list \<Rightarrow> real list \<Rightarrow> real list" where
  "f64_sq_err obs model = map2 f64_sq_diff obs model"

definition f64_sq_dev :: "real list \<Rightarrow> real \<Rightarrow> real list" where
  "f64_sq_dev obs mu = map (\<lambda>a. f64_sq_diff a mu) obs"

definition f64_mean :: "real list \<Rightarrow> real" where
  "f64_mean xs = fl (f64_sum xs / real (length xs))"

definition f64_mef_annual :: "real list \<Rightarrow> real list \<Rightarrow> real \<Rightarrow> real" where
  "f64_mef_annual obs model mu =
     fl (1 - fl (f64_sum (f64_sq_err obs model) / f64_sum (f64_sq_dev obs mu)))"


section \<open>Facts about the arithmetic and the reductions\<close>

lemma fsub_Fin [simp]: "fsub (Fin a) (Fin b) = Fin (a - b)"
  by (simp add: fsub_def)

lemma fsub_NaN [simp]: "fsub NaN v = NaN" "fsub v NaN = NaN"
  by (cases v; simp add: fsub_def)+

lemma fsq_Fin [simp]: "fsq (Fin a) = Fin (a * a)"
  by (simp add: fsq_def)

lemma fsq_NaN [simp]: "fsq NaN = NaN"
  by (simp add: fsq_def)

lemma fsq_nonneg: "fsq v = NaN \<or> nonneg (fsq v)"
  by (cases v) (simp_all add: fsq_def inf_of_sign_def)

lemma fsq_fsub_self: "fsq (fsub v v) = NaN \<or> fsq (fsub v v) = Fin 0"
  by (cases v) (simp_all add: fsub_def)

lemma nonneg_add: "nonneg a \<Longrightarrow> nonneg b \<Longrightarrow> nonneg (a + b)"
  by (cases a; cases b) simp_all

lemma xr_sum_Nil [simp]: "xr_sum [] = Fin 0"
  by (simp add: xr_sum_def zero_fval_def)

lemma xr_sum_Cons: "xr_sum (v # vs) = (if v = NaN then xr_sum vs else v + xr_sum vs)"
  by (simp add: xr_sum_def)

lemma xr_sum_append: "xr_sum (xs @ ys) = xr_sum xs + xr_sum ys"
  by (simp add: xr_sum_def)

lemma xr_sum_nonneg: "list_all (\<lambda>v. v = NaN \<or> nonneg v) vs \<Longrightarrow> nonneg (xr_sum vs)"
  by (induction vs) (auto simp: xr_sum_Cons nonneg_add)

lemma xr_sum_zero: "list_all (\<lambda>v. v = NaN \<or> v = Fin 0) vs \<Longrightarrow> xr_sum vs = Fin 0"
  by (induction vs) (auto simp: xr_sum_Cons)

lemma xr_sum_Fin: "xr_sum (map Fin xs) = Fin (sum_list xs)"
  by (induction xs) (simp_all add: xr_sum_Cons)

lemma xr_sum_Fin_comp: "xr_sum (map (Fin \<circ> f) xs) = Fin (sum_list (map f xs))"
  using xr_sum_Fin [of "map f xs"] by simp

lemma sq_err_Fin:
  "sq_err (map Fin os) (map Fin ms) = map Fin (map (\<lambda>p. (fst p - snd p)\<^sup>2) (zip os ms))"
  by (simp add: sq_err_def zip_map_map power2_eq_square case_prod_beta)

lemma sq_dev_Fin: "sq_dev (map Fin os) (Fin mu) = map Fin (map (\<lambda>a. (a - mu)\<^sup>2) os)"
  by (simp add: sq_dev_def power2_eq_square)

lemma length_sq_err [simp]: "length (sq_err a b) = min (length a) (length b)"
  by (simp add: sq_err_def)

lemma length_sq_dev [simp]: "length (sq_dev a mu) = length a"
  by (simp add: sq_dev_def)

lemma length_MEF_num [simp]: "length (MEF_num obs model) = min (length obs) (length model)"
  by (simp add: MEF_num_def)

lemma length_MEF_den [simp]: "length (MEF_den obs mean) = min (length obs) (length mean)"
  by (simp add: MEF_den_def)

lemma MEF_num_nth:
  "c < length obs \<Longrightarrow> c < length model \<Longrightarrow> MEF_num obs model ! c = sq_err (obs ! c) (model ! c)"
  by (simp add: MEF_num_def)

lemma MEF_den_nth:
  "c < length obs \<Longrightarrow> c < length mean \<Longrightarrow> MEF_den obs mean ! c = sq_dev (obs ! c) (mean ! c)"
  by (simp add: MEF_den_def)

lemma mef_annual_nth:
  "c < length obs \<Longrightarrow> c < length model \<Longrightarrow> c < length mean \<Longrightarrow>
   mef_annual obs model mean ! c =
     mef (xr_sum (sq_err (obs ! c) (model ! c))) (xr_sum (sq_dev (obs ! c) (mean ! c)))"
  by (simp add: mef_annual_def sum_tdim_def MEF_num_def MEF_den_def)

lemma mef_Fin: "d \<noteq> 0 \<Longrightarrow> mef (Fin n) (Fin d) = Fin (1 - n / d)"
  by (simp add: mef_def)

subsection \<open>Sums over the groups of a groupby, with the exact addition\<close>

text \<open>The addition of the array values is associative and commutative, which the
  rounded addition of double precision numbers is not: the lemmas of this subsection are
  facts about the exact sums.\<close>

lemma group_sum_alt:
  "group_sum keys k s =
     sum_list (map (\<lambda>p. if snd p = NaN then 0 else snd p) (filter (\<lambda>p. fst p = k) (zip keys s)))"
  by (simp add: group_sum_def xr_sum_def comp_def)

lemma sum_list_delta_notin:
  "k0 \<notin> set L \<Longrightarrow> sum_list (map (\<lambda>k. if k0 = k then (a::fval) else 0) L) = 0"
  by (induction L) auto

lemma sum_list_delta_fval:
  "distinct L \<Longrightarrow> k0 \<in> set L \<Longrightarrow> sum_list (map (\<lambda>k. if k0 = k then (a::fval) else 0) L) = a"
  by (induction L) (auto simp: sum_list_delta_notin)

lemma partition_pairs:
  "distinct L \<Longrightarrow> fst ` set ps \<subseteq> set L \<Longrightarrow>
   sum_list (map (\<lambda>k. sum_list (map (g::'k \<times> 'a \<Rightarrow> fval) (filter (\<lambda>p. fst p = k) ps))) L)
     = sum_list (map g ps)"
proof (induction ps)
  case Nil
  then show ?case by simp
next
  case (Cons p ps)
  have "(\<Sum>k\<leftarrow>L. sum_list (map g (filter (\<lambda>q. fst q = k) (p # ps))))
        = (\<Sum>k\<leftarrow>L. (if fst p = k then g p else 0) + sum_list (map g (filter (\<lambda>q. fst q = k) ps)))"
    by (rule arg_cong [where f = sum_list], rule map_cong) auto
  also have "\<dots> = (\<Sum>k\<leftarrow>L. if fst p = k then g p else 0)
        + (\<Sum>k\<leftarrow>L. sum_list (map g (filter (\<lambda>q. fst q = k) ps)))"
    by (rule sum_list_addf)
  also have "\<dots> = g p + sum_list (map g ps)"
    using Cons by (simp add: sum_list_delta_fval)
  finally show ?case by simp
qed

lemma group_partition:
  assumes "distinct L" and "set keys \<subseteq> set L" and "length s \<le> length keys"
  shows "sum_list (map (\<lambda>k. group_sum keys k s) L) = xr_sum s"
proof -
  have "sum_list (map (\<lambda>k. group_sum keys k s) L)
        = sum_list (map (\<lambda>p. if snd p = NaN then 0 else snd p) (zip keys s))"
    unfolding group_sum_alt
  proof (rule partition_pairs [OF assms(1)])
    show "fst ` set (zip keys s) \<subseteq> set L"
      using assms(2) by (auto dest: set_zip_leftD)
  qed
  also have "\<dots> = sum_list (map (\<lambda>v. if v = NaN then 0 else v) (map snd (zip keys s)))"
    by (simp add: comp_def)
  also have "map snd (zip keys s) = s"
    using assms(3) by (simp add: map_snd_zip_take)
  finally show ?thesis by (simp add: xr_sum_def)
qed

lemma month_keys_ok:
  "distinct (month_keys ts)" "set (map month_of ts) \<subseteq> set (month_keys ts)"
  by (simp_all add: month_keys_def)

lemma season_keys_ok:
  "distinct (season_keys ts)" "set (map season_of ts) \<subseteq> set (season_keys ts)"
proof -
  show "distinct (season_keys ts)" by (simp add: season_keys_def)
  have "k \<in> set [DJF, JJA, MAM, SON]" for k by (cases k) simp_all
  then show "set (map season_of ts) \<subseteq> set (season_keys ts)"
    unfolding season_keys_def set_filter by blast
qed

lemma map_snd_groupby: "map snd (groupby_sum L keys s) = map (\<lambda>k. group_sum keys k s) L"
  by (simp add: groupby_sum_def comp_def)

section \<open>Evaluation in double precision\<close>

lemma binade_numeral:
  "binade (numeral k) x =
     (if 2 \<le> x then binade (pred_numeral k) (x / 2) + 1
      else if x < 1 then binade (pred_numeral k) (2 * x) - 1 else 0)"
  by (simp add: numeral_eq_Suc)

lemmas f64_eval = fl_def round_even_def pow2_def binade_numeral Let_def f64_sum_def
  f64_sq_diff_def f64_mean_def f64_mef_annual_def f64_sq_err_def f64_sq_dev_def

text \<open>The double precision number nearest to one tenth, and a number that is its own
  rounding.\<close>

lemma fl_tenth: "fl (1 / 10) = 3602879701896397 / 36028797018963968"
  by (simp add: f64_eval)

lemma fl_quarter: "fl (1 / 4) = 1 / 4"
  by (simp add: f64_eval)

section \<open>The annual metric\<close>

text \<open>With missing values the sums of the annual metric run over the time steps whose
  term is a number.\<close>

lemma xr_sum_sq_err_opt:
  "xr_sum (map (\<lambda>p. fsq (fsub (of_opt (fst p)) (of_opt (snd p)))) ps)
     = Fin (sum_list (map (\<lambda>p. (the (fst p) - the (snd p))\<^sup>2)
         (filter (\<lambda>p. fst p \<noteq> None \<and> snd p \<noteq> None) ps)))"
proof (induction ps)
  case Nil
  then show ?case by simp
next
  case (Cons p ps)
  then show ?case
    by (cases "fst p"; cases "snd p") (simp_all add: xr_sum_Cons power2_eq_square)
qed

lemma xr_sum_sq_dev_opt:
  "xr_sum (map (\<lambda>a. fsq (fsub (of_opt a) (Fin mu))) os)
     = Fin (sum_list (map (\<lambda>a. (the a - mu)\<^sup>2) (filter (\<lambda>a. a \<noteq> None) os)))"
proof (induction os)
  case Nil
  then show ?case by simp
next
  case (Cons a os)
  then show ?case
    by (cases a) (simp_all add: xr_sum_Cons power2_eq_square)
qed

lemma xr_sum_sq_dev_NaN: "xr_sum (map (\<lambda>a. fsq (fsub a NaN)) s) = Fin 0"
  by (induction s) (simp_all add: xr_sum_Cons)

lemma valid_sq_err_nonneg: "0 \<le> sum_list (valid_sq_err os ms)"
  by (rule sum_list_nonneg) (auto simp: valid_sq_err_def)

lemma mef_valid: "0 \<le> n \<Longrightarrow> mef (Fin n) (Fin d) = valid_mef n d"
  by (simp add: mef_def valid_mef_def inf_of_sign_def fsub_def)

text \<open>
  Claim C1, as amended. At every grid cell whose observation and model values are numbers
  or not-a-number, the annual metric \<^verbatim>\<open>MEF_a\<close> is computed from two sums: the sum of
  \<open>(obs - model)\<^sup>2\<close> over the time steps at which both values are numbers, and the sum of
  \<open>(obs - obsmean)\<^sup>2\<close> over the time steps at which the observation is a number, \<open>obsmean\<close>
  being the value of \<^verbatim>\<open>o_mean\<close> at the cell (no time step counts when it is
  not-a-number). A time step with a missing value is left out of the sums; it does not
  make them not-a-number. The metric is 1 minus the ratio of the two sums where the
  second sum is not zero; where it is zero the metric is not-a-number if the first sum is
  zero as well, and minus infinity otherwise. This is the value before rounding: the
  notebook rounds every operation to double precision. On a grid of one cell with the
  four months \<open>obs = [0.1, 0.2, 0.3, 0.4]\<close> and \<open>model = [0.4, 0.3, 0.2, 0.1]\<close>, and the
  temporal mean of \<open>obs\<close> as \<open>obsmean\<close>, the double precision computation gives
  \<open>-3 - 2 ^ (-50)\<close>, which prints as \<open>-3.000000000000001\<close>.
\<close>

theorem mef_annual_formula:
  "(\<forall>obs model mean c os ms mu.
      c < length obs \<and> c < length model \<and> c < length mean \<and>
      obs ! c = map of_opt os \<and> model ! c = map of_opt ms \<and> mean ! c = of_opt mu \<longrightarrow>
      mef_annual obs model mean ! c
        = valid_mef (sum_list (valid_sq_err os ms)) (sum_list (valid_sq_dev os mu)))
   \<and> f64_mef_annual (map fl [0.1, 0.2, 0.3, 0.4]) (map fl [0.4, 0.3, 0.2, 0.1])
        (f64_mean (map fl [0.1, 0.2, 0.3, 0.4])) = - 3 - 1 / 2 ^ 50"
proof (intro conjI allI impI)
  show "f64_mef_annual (map fl [0.1, 0.2, 0.3, 0.4]) (map fl [0.4, 0.3, 0.2, 0.1])
        (f64_mean (map fl [0.1, 0.2, 0.3, 0.4])) = - 3 - 1 / 2 ^ 50"
    by (simp add: f64_eval)
next
  fix obs model :: field and mean :: cellmap and c os ms mu
  assume a: "c < length obs \<and> c < length model \<and> c < length mean \<and>
      obs ! c = map of_opt os \<and> model ! c = map of_opt ms \<and> mean ! c = of_opt mu"
  have n: "xr_sum (sq_err (obs ! c) (model ! c)) = Fin (sum_list (valid_sq_err os ms))"
    using xr_sum_sq_err_opt [of "zip os ms"]
    by (simp add: a sq_err_def zip_map_map valid_sq_err_def case_prod_beta comp_def)
  have d: "xr_sum (sq_dev (obs ! c) (mean ! c)) = Fin (sum_list (valid_sq_dev os mu))"
  proof (cases mu)
    case None
    then show ?thesis
      using xr_sum_sq_dev_NaN [of "map of_opt os"] by (simp add: a sq_dev_def valid_sq_dev_def)
  next
    case (Some m)
    then show ?thesis
      using xr_sum_sq_dev_opt [of m os] by (simp add: a sq_dev_def valid_sq_dev_def comp_def)
  qed
  have "mef_annual obs model mean ! c
      = mef (xr_sum (sq_err (obs ! c) (model ! c))) (xr_sum (sq_dev (obs ! c) (mean ! c)))"
    using a by (simp only: mef_annual_nth)
  then show "mef_annual obs model mean ! c
        = valid_mef (sum_list (valid_sq_err os ms)) (sum_list (valid_sq_dev os mu))"
    unfolding n d by (simp only: mef_valid [OF valid_sq_err_nonneg])
qed

theorem mef_annual_formula_witness:
  "mef_annual [[Fin 0, Fin 1, Fin (1 / 2), Fin (1 / 2)]] [[NaN, Fin (1 / 2), Fin (1 / 2), NaN]]
      [Fin (1 / 2)] ! 0
     = valid_mef (sum_list (valid_sq_err [Some 0, Some 1, Some (1 / 2), Some (1 / 2)]
                                [None, Some (1 / 2), Some (1 / 2), None]))
         (sum_list (valid_sq_dev [Some 0, Some 1, Some (1 / 2), Some (1 / 2)] (Some (1 / 2))))
   \<and> valid_sq_err [Some 0, Some 1, Some (1 / 2), Some (1 / 2)]
        [None, Some (1 / 2), Some (1 / 2), None] = [1 / 4, 0]
   \<and> valid_sq_dev [Some 0, Some 1, Some (1 / 2), Some (1 / 2)] (Some (1 / 2)) = [1 / 4, 1 / 4, 0, 0]
   \<and> valid_mef (1 / 4) (1 / 2) = Fin (1 / 2)"
  using mef_annual_formula [THEN conjunct1, rule_format,
      where c = 0 and obs = "[[Fin 0, Fin 1, Fin (1 / 2), Fin (1 / 2)]]"
        and model = "[[NaN, Fin (1 / 2), Fin (1 / 2), NaN]]"
        and mean = "[Fin (1 / 2)]" and os = "[Some 0, Some 1, Some (1 / 2), Some (1 / 2)]"
        and ms = "[None, Some (1 / 2), Some (1 / 2), None]" and mu = "Some (1 / 2)"]
  by (simp add: valid_sq_err_def valid_sq_dev_def valid_mef_def power2_eq_square
      del: not_None_eq)

text \<open>
  The claim as the specification words it does not hold. With the sums over all time
  steps, a cell whose model misses the first and the last of four months has a
  not-a-number metric, while \<^verbatim>\<open>MEF_a\<close> is \<open>1/2\<close> there: the observations 0, 1, 0.5, 0.5
  have the mean 0.5, the one valid squared error is 0.25 and the squared deviations sum
  to 0.5. And the value of the four-month example is not \<open>-3\<close> in double precision.
\<close>

theorem mef_annual_formula_counterexample:
  "spec_mef_a [Fin 0, Fin 1, Fin (1 / 2), Fin (1 / 2)] [NaN, Fin (1 / 2), Fin (1 / 2), NaN]
      (Fin (1 / 2)) = NaN
   \<and> xr_mean [Fin 0, Fin 1, Fin (1 / 2), Fin (1 / 2)] = Fin (1 / 2)
   \<and> mef_annual [[Fin 0, Fin 1, Fin (1 / 2), Fin (1 / 2)]] [[NaN, Fin (1 / 2), Fin (1 / 2), NaN]]
        [Fin (1 / 2)] = [Fin (1 / 2)]
   \<and> f64_mef_annual (map fl [0.1, 0.2, 0.3, 0.4]) (map fl [0.4, 0.3, 0.2, 0.1])
        (f64_mean (map fl [0.1, 0.2, 0.3, 0.4])) \<noteq> - 3"
proof (intro conjI)
  show "spec_mef_a [Fin 0, Fin 1, Fin (1 / 2), Fin (1 / 2)] [NaN, Fin (1 / 2), Fin (1 / 2), NaN]
      (Fin (1 / 2)) = NaN"
    by (simp add: spec_mef_a_def)
  show "xr_mean [Fin 0, Fin 1, Fin (1 / 2), Fin (1 / 2)] = Fin (1 / 2)"
    by (simp add: xr_mean_def xr_count_def xr_sum_Cons)
  show "mef_annual [[Fin 0, Fin 1, Fin (1 / 2), Fin (1 / 2)]] [[NaN, Fin (1 / 2), Fin (1 / 2), NaN]]
        [Fin (1 / 2)] = [Fin (1 / 2)]"
    by (simp add: mef_annual_def sum_tdim_def MEF_num_def MEF_den_def sq_err_def sq_dev_def
        xr_sum_Cons mef_def)
  show "f64_mef_annual (map fl [0.1, 0.2, 0.3, 0.4]) (map fl [0.4, 0.3, 0.2, 0.1])
        (f64_mean (map fl [0.1, 0.2, 0.3, 0.4])) \<noteq> - 3"
    by (simp add: f64_eval)
qed

section \<open>The monthly and seasonal groups partition the time steps\<close>












text \<open>With the exact additions of the array values of the first section, which are
  associative, the totals of the groups do add up to the annual total. The example above
  shows that this does not carry over to the rounded additions of the notebook.\<close>

lemma group_totals_exact_addition:
  assumes "c < length obs" and "c < length model" and "c < length mean"
    and "length (obs ! c) = length ts"
  shows "sum_list (map snd (groupby_sum (month_keys ts) (map month_of ts) (MEF_num obs model ! c)))
           = sum_tdim (MEF_num obs model) ! c
       \<and> sum_list (map snd (groupby_sum (season_keys ts) (map season_of ts) (MEF_num obs model ! c)))
           = sum_tdim (MEF_num obs model) ! c
       \<and> sum_list (map snd (groupby_sum (month_keys ts) (map month_of ts) (MEF_den obs mean ! c)))
           = sum_tdim (MEF_den obs mean) ! c
       \<and> sum_list (map snd (groupby_sum (season_keys ts) (map season_of ts) (MEF_den obs mean ! c)))
           = sum_tdim (MEF_den obs mean) ! c"
proof -
  have n: "length (MEF_num obs model ! c) \<le> length ts"
    using assms by (simp add: MEF_num_nth)
  have d: "length (MEF_den obs mean ! c) \<le> length ts"
    using assms by (simp add: MEF_den_nth)
  have sn: "sum_tdim (MEF_num obs model) ! c = xr_sum (MEF_num obs model ! c)"
    using assms by (simp add: sum_tdim_def)
  have sd: "sum_tdim (MEF_den obs mean) ! c = xr_sum (MEF_den obs mean ! c)"
    using assms by (simp add: sum_tdim_def)
  have m: "length s \<le> length ts \<Longrightarrow>
      sum_list (map snd (groupby_sum (month_keys ts) (map month_of ts) s)) = xr_sum s" for s
    unfolding map_snd_groupby
    by (rule group_partition) (simp_all add: month_keys_ok del: set_map)
  have q: "length s \<le> length ts \<Longrightarrow>
      sum_list (map snd (groupby_sum (season_keys ts) (map season_of ts) s)) = xr_sum s" for s
    unfolding map_snd_groupby
    by (rule group_partition) (simp_all add: season_keys_ok del: set_map)
  show ?thesis
    by (simp only: sn sd m [OF n] m [OF d] q [OF n] q [OF d])
qed

section \<open>Sums of squared errors and deviations\<close>

lemma sq_err_self: "list_all (\<lambda>v. v = NaN \<or> v = Fin 0) (sq_err s s)"
proof -
  have "fsq (fsub v v) \<noteq> Fin 0 \<Longrightarrow> fsq (fsub v v) = NaN" for v
    using fsq_fsub_self [of v] by blast
  then show ?thesis
    by (auto simp: sq_err_def list_all_iff zip_same)
qed

lemma sq_err_nonneg: "list_all (\<lambda>v. v = NaN \<or> nonneg v) (sq_err a b)"
  using fsq_nonneg by (auto simp: sq_err_def list_all_iff)

lemma sq_dev_nonneg: "list_all (\<lambda>v. v = NaN \<or> nonneg v) (sq_dev a mu)"
  using fsq_nonneg by (auto simp: sq_dev_def list_all_iff)

lemma sq_err_obs_NaN: "list_all (\<lambda>v. v = NaN) a \<Longrightarrow> list_all (\<lambda>v. v = NaN) (sq_err a b)"
  by (auto simp: sq_err_def list_all_iff dest!: set_zip_leftD)

lemma sq_err_model_NaN: "list_all (\<lambda>v. v = NaN) b \<Longrightarrow> list_all (\<lambda>v. v = NaN) (sq_err a b)"
  by (auto simp: sq_err_def list_all_iff dest!: set_zip_rightD)

lemma sq_dev_obs_NaN: "list_all (\<lambda>v. v = NaN) a \<Longrightarrow> list_all (\<lambda>v. v = NaN) (sq_dev a mu)"
  by (auto simp: sq_dev_def list_all_iff)

lemma group_members: "list_all P s \<Longrightarrow> list_all P (map snd (filter Q (zip keys s)))"
  by (auto simp: list_all_iff dest: set_zip_rightD)

lemma xr_sum_all_NaN: "list_all (\<lambda>v. v = NaN) vs \<Longrightarrow> xr_sum vs = Fin 0"
  by (rule xr_sum_zero) (auto simp: list_all_iff)

lemma group_sum_zero: "list_all (\<lambda>v. v = NaN \<or> v = Fin 0) s \<Longrightarrow> group_sum keys k s = Fin 0"
  unfolding group_sum_def by (rule xr_sum_zero, rule group_members)

lemma group_sum_all_NaN: "list_all (\<lambda>v. v = NaN) s \<Longrightarrow> group_sum keys k s = Fin 0"
  unfolding group_sum_def by (rule xr_sum_all_NaN, rule group_members)

lemma group_sum_nonneg: "list_all (\<lambda>v. v = NaN \<or> nonneg v) s \<Longrightarrow> nonneg (group_sum keys k s)"
  unfolding group_sum_def by (rule xr_sum_nonneg, rule group_members)

lemma mef_zero_num: "nonneg d \<Longrightarrow> d \<noteq> Fin 0 \<Longrightarrow> mef (Fin 0) d = Fin 1"
  by (cases d) (simp_all add: mef_def)

lemma mef_zero_den: "nonneg n \<Longrightarrow> mef n (Fin 0) = (if n = Fin 0 then NaN else NInf)"
  by (cases n) (simp_all add: mef_def inf_of_sign_def fsub_def)

lemma mef_zero_zero: "mef (Fin 0) (Fin 0) = NaN"
  by (simp add: mef_def inf_of_sign_def)

lemma mef_grouped_groupby:
  "mef_grouped (groupby_sum L K n) (groupby_sum L K d) =
     map (\<lambda>k. (k, mef (group_sum K k n) (group_sum K k d))) L"
  by (simp add: mef_grouped_def groupby_sum_def zip_map_map zip_same_conv_map)

lemma mef_monthly_nth:
  "c < length obs \<Longrightarrow> c < length model \<Longrightarrow> c < length mean \<Longrightarrow>
   mef_monthly ts obs model mean ! c =
     map (\<lambda>k. (k, mef (group_sum (map month_of ts) k (sq_err (obs ! c) (model ! c)))
                      (group_sum (map month_of ts) k (sq_dev (obs ! c) (mean ! c)))))
       (month_keys ts)"
  by (simp add: mef_monthly_def mef_grouped_groupby MEF_num_nth MEF_den_nth)

lemma mef_seasonal_nth:
  "c < length obs \<Longrightarrow> c < length model \<Longrightarrow> c < length mean \<Longrightarrow>
   mef_seasonal ts obs model mean ! c =
     map (\<lambda>k. (k, mef (group_sum (map season_of ts) k (sq_err (obs ! c) (model ! c)))
                      (group_sum (map season_of ts) k (sq_dev (obs ! c) (mean ! c)))))
       (season_keys ts)"
  by (simp add: mef_seasonal_def mef_grouped_groupby MEF_num_nth MEF_den_nth)

lemma map_of_tabulate: "k \<in> set L \<Longrightarrow> map_of (map (\<lambda>k. (k, f k)) L) k = Some (f k)"
  by (induction L) auto

lemma sum_tdim_nth: "c < length f \<Longrightarrow> sum_tdim f ! c = xr_sum (f ! c)"
  by (simp add: sum_tdim_def)

section \<open>A model equal to the observations\<close>

text \<open>
  Claim C5. At a grid cell where the normalized model series equals the observation
  series at every time step, the annual metric is 1 if the annual denominator of the cell
  is not zero, and the value of every month group and of every season group is 1 if the
  denominator of that group is not zero.
\<close>

theorem identity_model:
  assumes "c < length obs" and "c < length model" and "c < length mean"
    and "model ! c = obs ! c"
  shows "(sum_tdim (MEF_den obs mean) ! c \<noteq> Fin 0 \<longrightarrow> mef_annual obs model mean ! c = Fin 1)
       \<and> (\<forall>k. k \<in> set (month_keys ts)
              \<and> group_sum (map month_of ts) k (MEF_den obs mean ! c) \<noteq> Fin 0 \<longrightarrow>
              map_of (mef_monthly ts obs model mean ! c) k = Some (Fin 1))
       \<and> (\<forall>k. k \<in> set (season_keys ts)
              \<and> group_sum (map season_of ts) k (MEF_den obs mean ! c) \<noteq> Fin 0 \<longrightarrow>
              map_of (mef_seasonal ts obs model mean ! c) k = Some (Fin 1))"
proof (intro conjI allI impI)
  have den: "MEF_den obs mean ! c = sq_dev (obs ! c) (mean ! c)"
    using assms by (simp add: MEF_den_nth)
  have err: "list_all (\<lambda>v. v = NaN \<or> v = Fin 0) (sq_err (obs ! c) (model ! c))"
    unfolding assms(4) by (rule sq_err_self)
  {
    assume nz: "sum_tdim (MEF_den obs mean) ! c \<noteq> Fin 0"
    have "xr_sum (sq_err (obs ! c) (model ! c)) = Fin 0"
      using err by (rule xr_sum_zero)
    moreover have "nonneg (xr_sum (sq_dev (obs ! c) (mean ! c)))"
      by (rule xr_sum_nonneg, rule sq_dev_nonneg)
    moreover have "xr_sum (sq_dev (obs ! c) (mean ! c)) \<noteq> Fin 0"
      using nz assms by (simp add: sum_tdim_nth den)
    ultimately show "mef_annual obs model mean ! c = Fin 1"
      using assms(1-3) by (simp add: mef_annual_nth mef_zero_num)
  }
  {
    fix k
    assume k: "k \<in> set (month_keys ts)
        \<and> group_sum (map month_of ts) k (MEF_den obs mean ! c) \<noteq> Fin 0"
    have "group_sum (map month_of ts) k (sq_err (obs ! c) (model ! c)) = Fin 0"
      using err by (rule group_sum_zero)
    moreover have "nonneg (group_sum (map month_of ts) k (sq_dev (obs ! c) (mean ! c)))"
      by (rule group_sum_nonneg, rule sq_dev_nonneg)
    ultimately show "map_of (mef_monthly ts obs model mean ! c) k = Some (Fin 1)"
      using assms(1-3) k by (simp add: mef_monthly_nth map_of_tabulate den mef_zero_num)
  }
  {
    fix k
    assume k: "k \<in> set (season_keys ts)
        \<and> group_sum (map season_of ts) k (MEF_den obs mean ! c) \<noteq> Fin 0"
    have "group_sum (map season_of ts) k (sq_err (obs ! c) (model ! c)) = Fin 0"
      using err by (rule group_sum_zero)
    moreover have "nonneg (group_sum (map season_of ts) k (sq_dev (obs ! c) (mean ! c)))"
      by (rule group_sum_nonneg, rule sq_dev_nonneg)
    ultimately show "map_of (mef_seasonal ts obs model mean ! c) k = Some (Fin 1)"
      using assms(1-3) k by (simp add: mef_seasonal_nth map_of_tabulate den mef_zero_num)
  }
qed

theorem identity_model_witness:
  "mef_annual [[Fin 1, Fin 3, Fin 2]] [[Fin 1, Fin 3, Fin 2]] [Fin 2] ! 0 = Fin 1
   \<and> map_of (mef_monthly [(1978, 12), (1979, 1), (1979, 12)]
        [[Fin 1, Fin 3, Fin 2]] [[Fin 1, Fin 3, Fin 2]] [Fin 2] ! 0) 1 = Some (Fin 1)
   \<and> map_of (mef_seasonal [(1978, 12), (1979, 1), (1979, 12)]
        [[Fin 1, Fin 3, Fin 2]] [[Fin 1, Fin 3, Fin 2]] [Fin 2] ! 0) DJF = Some (Fin 1)"
  using identity_model [of 0 "[[Fin 1, Fin 3, Fin 2]]" "[[Fin 1, Fin 3, Fin 2]]" "[Fin 2]"
      "[(1978, 12), (1979, 1), (1979, 12)]"]
  by (simp add: month_keys_def season_keys_def month_of_def season_of_def group_sum_def
      MEF_den_def sq_dev_def sum_tdim_def xr_sum_Cons)

section \<open>A denominator that is zero\<close>

lemma sum_xy_nth: "t < n \<Longrightarrow> sum_xy n f ! t = xr_sum (map (\<lambda>s. s ! t) f)"
  by (simp add: sum_xy_def)

lemma mef_binned_nth:
  "t < n \<Longrightarrow> mef_binned n obs model mean ! t =
     mef (sum_xy n (MEF_num obs model) ! t) (sum_xy n (MEF_den obs mean) ! t)"
  by (simp add: mef_binned_def sum_xy_def)

lemma binned_num_nonneg:
  assumes "t < n" and "list_all (\<lambda>s. length s = n) obs" and "list_all (\<lambda>s. length s = n) model"
  shows "nonneg (sum_xy n (MEF_num obs model) ! t)"
proof -
  have "(sq_err a b) ! t = NaN \<or> nonneg ((sq_err a b) ! t)"
    if "a \<in> set obs" and "b \<in> set model" for a b
    using that assms fsq_nonneg by (simp add: sq_err_def list_all_iff)
  then have "list_all (\<lambda>v. v = NaN \<or> nonneg v) (map (\<lambda>s. s ! t) (MEF_num obs model))"
    by (auto simp: MEF_num_def list_all_iff dest: set_zip_leftD set_zip_rightD)
  then show ?thesis
    using assms(1) by (simp add: sum_xy_nth xr_sum_nonneg)
qed

lemma group_sum_sq_err_nonneg: "nonneg (group_sum keys k (sq_err a b))"
  by (rule group_sum_nonneg, rule sq_err_nonneg)

text \<open>
  Claim C3, as amended. No metric raises an error and none is clamped. Where the
  denominator sum of an annual, monthly or seasonal value of a cell, or of a binned value
  of a time step, is exactly zero, the value is not-a-number if the numerator sum is zero
  as well, and minus infinity otherwise. At a cell whose observations are not-a-number at
  every time step, both sums are zero and the annual, monthly and seasonal values are
  not-a-number.
\<close>

theorem zero_denominator:
  assumes "c < length obs" and "c < length model" and "c < length mean"
  shows "(sum_tdim (MEF_den obs mean) ! c = Fin 0 \<longrightarrow>
            mef_annual obs model mean ! c
              = (if sum_tdim (MEF_num obs model) ! c = Fin 0 then NaN else NInf))
       \<and> (\<forall>k. k \<in> set (month_keys ts)
              \<and> group_sum (map month_of ts) k (MEF_den obs mean ! c) = Fin 0 \<longrightarrow>
              map_of (mef_monthly ts obs model mean ! c) k
                = Some (if group_sum (map month_of ts) k (MEF_num obs model ! c) = Fin 0
                        then NaN else NInf))
       \<and> (\<forall>k. k \<in> set (season_keys ts)
              \<and> group_sum (map season_of ts) k (MEF_den obs mean ! c) = Fin 0 \<longrightarrow>
              map_of (mef_seasonal ts obs model mean ! c) k
                = Some (if group_sum (map season_of ts) k (MEF_num obs model ! c) = Fin 0
                        then NaN else NInf))
       \<and> (\<forall>t. t < n \<and> list_all (\<lambda>s. length s = n) obs \<and> list_all (\<lambda>s. length s = n) model
              \<and> sum_xy n (MEF_den obs mean) ! t = Fin 0 \<longrightarrow>
              mef_binned n obs model mean ! t
                = (if sum_xy n (MEF_num obs model) ! t = Fin 0 then NaN else NInf))
       \<and> (list_all (\<lambda>v. v = NaN) (obs ! c) \<longrightarrow>
              mef_annual obs model mean ! c = NaN
              \<and> list_all (\<lambda>p. snd p = NaN) (mef_monthly ts obs model mean ! c)
              \<and> list_all (\<lambda>p. snd p = NaN) (mef_seasonal ts obs model mean ! c))"
proof (intro conjI allI impI)
  have num: "MEF_num obs model ! c = sq_err (obs ! c) (model ! c)"
    using assms by (simp add: MEF_num_nth)
  have den: "MEF_den obs mean ! c = sq_dev (obs ! c) (mean ! c)"
    using assms by (simp add: MEF_den_nth)
  have nn: "nonneg (xr_sum (sq_err (obs ! c) (model ! c)))"
    by (rule xr_sum_nonneg, rule sq_err_nonneg)
  note gn = mef_zero_den [OF group_sum_sq_err_nonneg]
  {
    assume "sum_tdim (MEF_den obs mean) ! c = Fin 0"
    then show "mef_annual obs model mean ! c
        = (if sum_tdim (MEF_num obs model) ! c = Fin 0 then NaN else NInf)"
      using assms nn by (simp add: mef_annual_nth sum_tdim_nth num den mef_zero_den)
  }
  {
    fix k
    assume "k \<in> set (month_keys ts) \<and> group_sum (map month_of ts) k (MEF_den obs mean ! c) = Fin 0"
    then show "map_of (mef_monthly ts obs model mean ! c) k
        = Some (if group_sum (map month_of ts) k (MEF_num obs model ! c) = Fin 0 then NaN else NInf)"
      using assms by (simp add: mef_monthly_nth map_of_tabulate num den gn)
  }
  {
    fix k
    assume "k \<in> set (season_keys ts) \<and> group_sum (map season_of ts) k (MEF_den obs mean ! c) = Fin 0"
    then show "map_of (mef_seasonal ts obs model mean ! c) k
        = Some (if group_sum (map season_of ts) k (MEF_num obs model ! c) = Fin 0 then NaN else NInf)"
      using assms by (simp add: mef_seasonal_nth map_of_tabulate num den gn)
  }
  {
    fix t
    assume "t < n \<and> list_all (\<lambda>s. length s = n) obs \<and> list_all (\<lambda>s. length s = n) model
        \<and> sum_xy n (MEF_den obs mean) ! t = Fin 0"
    then show "mef_binned n obs model mean ! t
        = (if sum_xy n (MEF_num obs model) ! t = Fin 0 then NaN else NInf)"
      using binned_num_nonneg [of t n obs model] by (simp add: mef_binned_nth mef_zero_den)
  }
  {
    assume masked: "list_all (\<lambda>v. v = NaN) (obs ! c)"
    have e: "list_all (\<lambda>v. v = NaN) (sq_err (obs ! c) (model ! c))"
      using masked by (rule sq_err_obs_NaN)
    have d: "list_all (\<lambda>v. v = NaN) (sq_dev (obs ! c) (mean ! c))"
      using masked by (rule sq_dev_obs_NaN)
    show "mef_annual obs model mean ! c = NaN"
      using assms by (simp add: mef_annual_nth xr_sum_all_NaN [OF e] xr_sum_all_NaN [OF d] mef_zero_zero)
    show "list_all (\<lambda>p. snd p = NaN) (mef_monthly ts obs model mean ! c)"
      using assms
      by (simp add: mef_monthly_nth group_sum_all_NaN [OF e] group_sum_all_NaN [OF d]
          mef_zero_zero list_all_iff)
    show "list_all (\<lambda>p. snd p = NaN) (mef_seasonal ts obs model mean ! c)"
      using assms
      by (simp add: mef_seasonal_nth group_sum_all_NaN [OF e] group_sum_all_NaN [OF d]
          mef_zero_zero list_all_iff)
  }
qed

theorem zero_denominator_witness:
  "mef_annual [[Fin 1, Fin 1]] [[Fin 0, Fin 1]] [Fin 1] ! 0 = NInf
   \<and> map_of (mef_monthly [(1978, 12), (1979, 2)] [[Fin 1, Fin 1]] [[Fin 0, Fin 1]] [Fin 1] ! 0) 2
       = Some NaN
   \<and> map_of (mef_seasonal [(1978, 12), (1979, 2)] [[Fin 1, Fin 1]] [[Fin 0, Fin 1]] [Fin 1] ! 0) DJF
       = Some NInf
   \<and> mef_binned 2 [[Fin 1, Fin 1]] [[Fin 0, Fin 1]] [Fin 1] ! 0 = NInf
   \<and> mef_annual [[NaN, NaN]] [[Fin 0, Fin 1]] [NaN] ! 0 = NaN"
proof -
  note T = zero_denominator [of 0 "[[Fin 1, Fin 1]]" "[[Fin 0, Fin 1]]" "[Fin 1]"
      "[(1978, 12), (1979, 2)]" 2]
  note U = zero_denominator [of 0 "[[NaN, NaN]]" "[[Fin 0, Fin 1]]" "[NaN]" "[]" 0]
  have a: "mef_annual [[Fin 1, Fin 1]] [[Fin 0, Fin 1]] [Fin 1] ! 0 = NInf"
    using T by (simp add: sum_tdim_def MEF_den_def MEF_num_def sq_dev_def sq_err_def xr_sum_Cons)
  have m: "map_of (mef_monthly [(1978, 12), (1979, 2)] [[Fin 1, Fin 1]] [[Fin 0, Fin 1]] [Fin 1] ! 0) 2
       = Some NaN"
    using T [THEN conjunct2, THEN conjunct1, rule_format, of 2]
    by (simp add: month_keys_def month_of_def group_sum_def MEF_den_def MEF_num_def sq_dev_def
        sq_err_def xr_sum_Cons)
  have s: "map_of (mef_seasonal [(1978, 12), (1979, 2)] [[Fin 1, Fin 1]] [[Fin 0, Fin 1]] [Fin 1] ! 0) DJF
       = Some NInf"
    using T [THEN conjunct2, THEN conjunct2, THEN conjunct1, rule_format, of DJF]
    by (simp add: season_keys_def season_of_def group_sum_def MEF_den_def MEF_num_def sq_dev_def
        sq_err_def xr_sum_Cons)
  have b: "mef_binned 2 [[Fin 1, Fin 1]] [[Fin 0, Fin 1]] [Fin 1] ! 0 = NInf"
    using T [THEN conjunct2, THEN conjunct2, THEN conjunct2, THEN conjunct1, rule_format, of 0]
    by (simp add: sum_xy_def MEF_den_def MEF_num_def sq_dev_def sq_err_def xr_sum_Cons)
  have k: "mef_annual [[NaN, NaN]] [[Fin 0, Fin 1]] [NaN] ! 0 = NaN"
    using U by simp
  show ?thesis
    by (intro conjI a m s b k)
qed

section \<open>The time labels of the model\<close>

lemma relabel_time_eq:
  assumes "ds_coords ds = [(''time'', ''time'', ts)]" and "sic_dim ds = ''time''"
  shows "relabel_time obs_t ds =
     (if sic_len ds = length obs_t
      then Inr (ds\<lparr>ds_coords := [(''time'', ''tdim'', obs_t)], sic_dim := ''tdim''\<rparr>)
      else Inl ValueError)"
  using assms
  by (simp add: relabel_time_def assign_coords_def swap_dims_def dim_sizes_def conflicting_def
      Let_def)

lemma overlay_fold:
  assumes "length f = length lmask"
  shows "length (fold (overlay_step lmask) [0..<n] f) = length f \<and>
     (\<forall>c < length f. fold (overlay_step lmask) [0..<n] f ! c
        = map (\<lambda>v. fmul v (lmask ! c)) (take n (f ! c)) @ drop n (f ! c))"
proof (induction n)
  case 0
  then show ?case by simp
next
  case (Suc n)
  let ?g = "fold (overlay_step lmask) [0..<n] f"
  have len: "length ?g = length f" using Suc by simp
  have step: "fold (overlay_step lmask) [0..<Suc n] f = overlay_step lmask n ?g"
    by simp
  have "overlay_step lmask n ?g ! c
      = map (\<lambda>v. fmul v (lmask ! c)) (take (Suc n) (f ! c)) @ drop (Suc n) (f ! c)"
    if c: "c < length f" for c
  proof -
    have g: "?g ! c = map (\<lambda>v. fmul v (lmask ! c)) (take n (f ! c)) @ drop n (f ! c)"
      using Suc c by simp
    have "overlay_step lmask n ?g ! c = (?g ! c)[n := fmul (?g ! c ! n) (lmask ! c)]"
      using c len assms by (simp add: overlay_step_def)
    also have "\<dots> = map (\<lambda>v. fmul v (lmask ! c)) (take (Suc n) (f ! c)) @ drop (Suc n) (f ! c)"
    proof (cases "n < length (f ! c)")
      case True
      then show ?thesis
        unfolding g
        by (simp add: list_update_append nth_append take_Suc_conv_app_nth min_def
            Cons_nth_drop_Suc [symmetric])
    next
      case False
      then show ?thesis unfolding g by (simp add: list_update_beyond)
    qed
    finally show ?thesis .
  qed
  moreover have "length (overlay_step lmask n ?g) = length f"
    using len assms by (simp add: overlay_step_def)
  ultimately show ?case unfolding step by simp
qed

lemma regridded_sel [simp]:
  "ds_coords (regridded ext ds_tgt ds) = [(''time'', ''time'', sel_time (m_time ds) (m_time ds))]"
  "sic_dim (regridded ext ds_tgt ds) = ''time''"
  "sic_len (regridded ext ds_tgt ds) = length (sel_time (m_time ds) (m_time ds))"
  by (simp_all add: regridded_def prepare_model_def Let_def)

lemma normalize_eq:
  "normalize ext lmask obs_t ds_tgt ds =
     (if 0 < length (sel_time (m_time ds) (m_time ds))
          \<and> length (sic (regridded ext ds_tgt ds)) \<noteq> length lmask then Inl ValueError
      else if length (sel_time (m_time ds) (m_time ds)) \<noteq> length obs_t then Inl ValueError
      else Inr (map (map (\<lambda>v. fdiv v (Fin 100)))
             (fold (overlay_step lmask) [0..<length obs_t] (sic (regridded ext ds_tgt ds)))))"
  by (simp add: normalize_def overlay_mask_def Let_def
      relabel_time_eq [where ts = "sel_time (m_time ds) (m_time ds)"])

lemma normalize_mismatch:
  "length (sel_time (m_time ds) (m_time ds)) \<noteq> length obs_t \<Longrightarrow>
   normalize ext lmask obs_t ds_tgt ds = Inl ValueError"
  by (simp add: normalize_eq)

lemma mef_loop_fails:
  "km \<in> set kms \<Longrightarrow> iteration ext ref_ds lmask b ddict km = (\<lambda>MEF. Inl e) \<Longrightarrow>
   \<exists>e'. mef_loop ext ref_ds lmask b ddict kms MEF = Inl e'"
proof (induction kms arbitrary: MEF)
  case Nil
  then show ?case by simp
next
  case (Cons a kms)
  show ?case
  proof (cases "iteration ext ref_ds lmask b ddict a MEF")
    case (Inl e')
    then show ?thesis by simp
  next
    case (Inr MEF')
    then have "a \<noteq> km" using Cons.prems(2) by auto
    then have "km \<in> set kms" using Cons.prems(1) by simp
    then show ?thesis using Cons.IH Cons.prems(2) Inr by simp
  qed
qed

text \<open>
  Claim C4. When the number of time steps of a model after the time slice differs from
  the number of time labels of the observations, the normalization of the model fails with
  an error: it returns no series, truncated, padded or otherwise. The error is the
  \<^verbatim>\<open>ValueError\<close> of \<^verbatim>\<open>swap_dims\<close>, whose result would give the dimension \<open>time\<close> two
  sizes (or, before it, that of the overlay on a grid of another shape). The iteration
  appends nothing, and a loop over a list that holds the model ends with an error.
\<close>

theorem time_length_mismatch:
  assumes "map_of ddict (fst km) = Some ds"
    and "length (sel_time (m_time ds) (m_time ds)) \<noteq> length (obs_time b)"
  shows "normalize ext lmask (obs_time b) ds_tgt ds = Inl ValueError
       \<and> iteration ext ref_ds lmask b ddict km MEF = Inl ValueError
       \<and> (\<forall>kms MEF'. km \<in> set kms \<longrightarrow>
            (\<exists>e. mef_loop ext ref_ds lmask b ddict kms MEF' = Inl e))"
proof (intro conjI allI impI)
  show "normalize ext lmask (obs_time b) ds_tgt ds = Inl ValueError"
    using assms(2) by (rule normalize_mismatch)
  have it: "iteration ext ref_ds lmask b ddict km = (\<lambda>MEF. Inl ValueError)"
    using assms by (simp add: iteration_def model_step_def normalize_mismatch fun_eq_iff)
  then show "iteration ext ref_ds lmask b ddict km MEF = Inl ValueError"
    by simp
  fix kms MEF'
  assume "km \<in> set kms"
  then show "\<exists>e. mef_loop ext ref_ds lmask b ddict kms MEF' = Inl e"
    using it by (rule mef_loop_fails)
qed

theorem time_length_mismatch_witness:
  "normalize \<lparr>subset_bbox = (\<lambda>r bb. r), apply_weights = (\<lambda>r f. f)\<rparr> [Fin 1]
       (obs_time \<lparr>obs_time = [(1978, 12), (1979, 1)], obs_da = [[Fin 1, Fin 1]], o_mean = [Fin 1]\<rparr>)
       \<lparr>ref_grid = [(0, - 60)], landmask = [Fin 0]\<rparr>
       \<lparr>m_grid = [(0, - 60)], m_time = [(1978, 11), (1978, 12)], siconc = [[Fin 50, Fin 60]]\<rparr>
     = Inl ValueError
   \<and> iteration \<lparr>subset_bbox = (\<lambda>r bb. r), apply_weights = (\<lambda>r f. f)\<rparr>
       \<lparr>ref_grid = [(0, - 60)], landmask = [Fin 0]\<rparr> [Fin 1]
       \<lparr>obs_time = [(1978, 12), (1979, 1)], obs_da = [[Fin 1, Fin 1]], o_mean = [Fin 1]\<rparr>
       [(''a.b.M1.c'', \<lparr>m_grid = [(0, - 60)], m_time = [(1978, 11), (1978, 12)],
                        siconc = [[Fin 50, Fin 60]]\<rparr>)]
       (''a.b.M1.c'', ''M1'') [] = Inl ValueError"
  using time_length_mismatch [of
      "[(''a.b.M1.c'', \<lparr>m_grid = [(0, - 60)], m_time = [(1978, 11), (1978, 12)],
                        siconc = [[Fin 50, Fin 60]]\<rparr>)]"
      "(''a.b.M1.c'', ''M1'')"
      "\<lparr>m_grid = [(0, - 60)], m_time = [(1978, 11), (1978, 12)], siconc = [[Fin 50, Fin 60]]\<rparr>"
      "\<lparr>obs_time = [(1978, 12), (1979, 1)], obs_da = [[Fin 1, Fin 1]], o_mean = [Fin 1]\<rparr>"
      "\<lparr>subset_bbox = (\<lambda>r bb. r), apply_weights = (\<lambda>r f. f)\<rparr>" "[Fin 1]"
      "\<lparr>ref_grid = [(0, - 60)], landmask = [Fin 0]\<rparr>"
      "\<lparr>ref_grid = [(0, - 60)], landmask = [Fin 0]\<rparr>" "[]"]
  by (simp add: sel_time_def in_window_def)

section \<open>The compiled dataset\<close>

lemma source_id_loop_Inr:
  "source_id_loop keys acc = Inr r \<Longrightarrow> r = acc @ map (\<lambda>k. split_dot k ! 2) keys"
proof (induction keys arbitrary: acc)
  case Nil
  then show ?case by simp
next
  case (Cons key keys)
  then have "source_id_loop keys (acc @ [split_dot key ! 2]) = Inr r"
    by (simp add: Let_def split: if_splits)
  then have "r = (acc @ [split_dot key ! 2]) @ map (\<lambda>k. split_dot k ! 2) keys"
    by (rule Cons.IH)
  then show ?case by simp
qed

lemma iteration_Inr:
  assumes "iteration ext ref_ds lmask b ddict km MEF = Inr MEF'"
  shows "\<exists>ds model_da. map_of ddict (fst km) = Some ds
      \<and> normalize ext lmask (obs_time b) (subset_bbox ext ref_ds the_bbox) ds = Inr model_da
      \<and> MEF' = MEF @ [metrics b model_da (snd km)]"
  using assms
  by (auto simp: iteration_def model_step_def Let_def split: option.splits sum.splits if_splits)

lemma mef_loop_Inr:
  "mef_loop ext ref_ds lmask b ddict kms MEF = Inr res \<Longrightarrow>
   length res = length MEF + length kms \<and> take (length MEF) res = MEF \<and>
   (\<forall>j < length kms. \<exists>ds model_da. map_of ddict (fst (kms ! j)) = Some ds
      \<and> normalize ext lmask (obs_time b) (subset_bbox ext ref_ds the_bbox) ds = Inr model_da
      \<and> res ! (length MEF + j) = metrics b model_da (snd (kms ! j)))"
proof (induction kms arbitrary: MEF)
  case Nil
  then show ?case by simp
next
  case (Cons km kms)
  from Cons.prems obtain MEF' where
    it: "iteration ext ref_ds lmask b ddict km MEF = Inr MEF'" and
    rest: "mef_loop ext ref_ds lmask b ddict kms MEF' = Inr res"
    by (auto split: sum.splits)
  from iteration_Inr [OF it] obtain ds model_da where
    ds: "map_of ddict (fst km) = Some ds" and
    nm: "normalize ext lmask (obs_time b) (subset_bbox ext ref_ds the_bbox) ds = Inr model_da" and
    M: "MEF' = MEF @ [metrics b model_da (snd km)]"
    by blast
  note IH = Cons.IH [OF rest]
  have len: "length res = length MEF + length (km # kms)"
    using IH M by simp
  have tk: "take (Suc (length MEF)) res = MEF @ [metrics b model_da (snd km)]"
    using IH M by simp
  then have "take (length MEF) (take (Suc (length MEF)) res) = MEF"
    by simp
  then have tk': "take (length MEF) res = MEF"
    by (simp add: min_def)
  have hd: "res ! length MEF = metrics b model_da (snd km)"
  proof -
    have "res ! length MEF = take (Suc (length MEF)) res ! length MEF" by simp
    then show ?thesis unfolding tk by simp
  qed
  have "\<exists>ds model_da. map_of ddict (fst ((km # kms) ! j)) = Some ds
      \<and> normalize ext lmask (obs_time b) (subset_bbox ext ref_ds the_bbox) ds = Inr model_da
      \<and> res ! (length MEF + j) = metrics b model_da (snd ((km # kms) ! j))"
    if j: "j < length (km # kms)" for j
  proof (cases j)
    case 0
    then show ?thesis using ds nm hd by simp
  next
    case (Suc i)
    then have "i < length kms" using j by simp
    then show ?thesis using IH M Suc by simp
  qed
  then show ?case using len tk' by blast
qed

text \<open>What cell 9 returns when it succeeds, for a dictionary given with its keys in
  order.\<close>

lemma cell9_Inr:
  assumes "cell9 ext ref_ds lmask b ddict = Inr combined_ds"
  shows "length combined_ds = length ddict
       \<and> map model_name combined_ds = map (\<lambda>key. split_dot key ! 2) (map fst ddict)
       \<and> (\<forall>j < length ddict. \<exists>ds model_da.
              map_of ddict (fst (ddict ! j)) = Some ds
            \<and> normalize ext lmask (obs_time b) (subset_bbox ext ref_ds the_bbox) ds = Inr model_da
            \<and> combined_ds ! j = metrics b model_da (split_dot (fst (ddict ! j)) ! 2))"
proof -
  let ?mlist = "map fst ddict"
  from assms obtain source_id MEF where
    sid: "source_id_loop ?mlist [] = Inr source_id" and
    loop: "mef_loop ext ref_ds lmask b ddict (zip ?mlist source_id) [] = Inr MEF" and
    cat: "xr_concat MEF = Inr combined_ds"
    by (auto simp: cell9_def Let_def split: sum.splits)
  have ids: "source_id = map (\<lambda>key. split_dot key ! 2) ?mlist"
    using source_id_loop_Inr [OF sid] by simp
  have comb: "combined_ds = MEF"
    using cat by (simp add: xr_concat_def split: if_splits)
  have zl: "length (zip ?mlist source_id) = length ddict"
    by (simp add: ids)
  have zn: "zip ?mlist source_id ! j = (fst (ddict ! j), split_dot (fst (ddict ! j)) ! 2)"
    if "j < length ddict" for j
    using that by (simp add: ids)
  note L = mef_loop_Inr [OF loop]
  have len: "length combined_ds = length ddict"
    using L zl comb by simp
  have each: "\<exists>ds model_da.
              map_of ddict (fst (ddict ! j)) = Some ds
            \<and> normalize ext lmask (obs_time b) (subset_bbox ext ref_ds the_bbox) ds = Inr model_da
            \<and> combined_ds ! j = metrics b model_da (split_dot (fst (ddict ! j)) ! 2)"
    if j: "j < length ddict" for j
  proof -
    have "j < length (zip ?mlist source_id)" using j zl by simp
    with L obtain ds model_da where
      "map_of ddict (fst (zip ?mlist source_id ! j)) = Some ds"
      "normalize ext lmask (obs_time b) (subset_bbox ext ref_ds the_bbox) ds = Inr model_da"
      "MEF ! (length ([]::metricset list) + j) = metrics b model_da (snd (zip ?mlist source_id ! j))"
      by blast
    then show ?thesis using zn [OF j] comb by auto
  qed
  have names: "map model_name combined_ds = map (\<lambda>key. split_dot key ! 2) ?mlist"
  proof (rule nth_equalityI)
    show "length (map model_name combined_ds) = length (map (\<lambda>key. split_dot key ! 2) ?mlist)"
      using len by simp
    fix j assume "j < length (map model_name combined_ds)"
    then have j: "j < length ddict" using len by simp
    from each [OF j] obtain model_da where
      "combined_ds ! j = metrics b model_da (split_dot (fst (ddict ! j)) ! 2)" by blast
    then show "map model_name combined_ds ! j = map (\<lambda>key. split_dot key ! 2) ?mlist ! j"
      using j len by (simp add: metrics_def)
  qed
  show ?thesis using len names each by blast
qed

text \<open>
  Claim C9, as amended. When a run compiles a dataset, every model of the dictionary that
  \<^verbatim>\<open>to_dataset_dict\<close> returned for the list \<^verbatim>\<open>mods\<close> has been processed (a failure of any
  model aborts the run). The \<open>models\<close> axis has one slice per key of the dictionary, in the
  order of the keys, \<^verbatim>\<open>mlist = list(ddict.keys())\<close>; slice \<open>j\<close> holds the metrics computed
  from the dataset \<^verbatim>\<open>ddict[mlist[j]]\<close> and is labelled with the third dot-separated part of
  \<^verbatim>\<open>mlist[j]\<close>, the name of that model. The order of the axis is the order in which the
  loader filled the dictionary, whatever the order of \<^verbatim>\<open>mods\<close> is.
\<close>

theorem models_axis:
  assumes "notebook_run to_dataset_dict ext var ref_ds obs_ds = Inr combined_ds"
  shows "length combined_ds = length (to_dataset_dict mods)
       \<and> map model_name combined_ds
           = map (\<lambda>key. split_dot key ! 2) (map fst (to_dataset_dict mods))
       \<and> (\<forall>j < length (to_dataset_dict mods). \<exists>ds model_da.
              map_of (to_dataset_dict mods) (fst (to_dataset_dict mods ! j)) = Some ds
            \<and> normalize ext (mask_of ref_ds) (obs_time (observations var obs_ds))
                (subset_bbox ext ref_ds the_bbox) ds = Inr model_da
            \<and> combined_ds ! j
                = metrics (observations var obs_ds) model_da
                    (split_dot (fst (to_dataset_dict mods ! j)) ! 2))"
  using assms unfolding notebook_run_def notebook_def Let_def by (rule cell9_Inr)

section \<open>The target grid and the regridder of an iteration\<close>

lemma mef_loop_once_eq:
  "mef_loop_once ext (subset_bbox ext ref_ds the_bbox) lmask b ddict kms MEF
     = mef_loop ext ref_ds lmask b ddict kms MEF"
  by (induction kms arbitrary: MEF) (simp_all add: iteration_def split: option.splits sum.splits)

text \<open>
  Claim C10, as amended. The target grid built inside the loop depends on the reference
  dataset and the fixed bounding box only, so every iteration builds the target grid of
  the first one, and cell 9 returns what the variant that builds the target grid once
  before the loop returns.
\<close>

theorem target_grid_once:
  "cell9_once ext ref_ds lmask b ddict = cell9 ext ref_ds lmask b ddict"
  by (simp add: cell9_once_def cell9_def Let_def mef_loop_once_eq cong: sum.case_cong)

text \<open>The regridder is built from the grid of the model as well: two models on
  different grids get different regridders.\<close>

theorem regridder_per_model_counterexample:
  "xe_Regridder
      (prepare_model \<lparr>m_grid = [(0, - 60)], m_time = [(1978, 12)], siconc = [[Fin 50]]\<rparr>)
      \<lparr>ref_grid = [(0, - 60)], landmask = [Fin 0]\<rparr> ''bilinear'' True
   \<noteq> xe_Regridder
      (prepare_model \<lparr>m_grid = [(0, - 60), (1, - 60)], m_time = [(1978, 12)],
                      siconc = [[Fin 50], [Fin 50]]\<rparr>)
      \<lparr>ref_grid = [(0, - 60)], landmask = [Fin 0]\<rparr> ''bilinear'' True"
  by (simp add: xe_Regridder_def prepare_model_def)

section \<open>The observations: the count threshold and the variations\<close>

lemma in_window_month_labels:
  assumes "i < 432"
  shows "in_window (1978 + int ((i + 11) div 12), Suc ((i + 11) mod 12))"
proof -
  define q where "q = (i + 11) div 12"
  define r where "r = (i + 11) mod 12"
  have e: "i + 11 = 12 * q + r" and r: "r < 12"
    by (simp_all add: q_def r_def)
  have "in_window (1978 + int q, Suc r)"
    unfolding in_window_def using e r assms by (simp; linarith)
  then show ?thesis by (simp add: q_def r_def)
qed

lemma length_month_labels [simp]: "length (month_labels n) = n"
  by (simp add: month_labels_def)

lemma sel_time_all:
  assumes "list_all in_window ts" and "length xs = length ts"
  shows "sel_time ts xs = xs"
proof -
  have "\<forall>p \<in> set (zip ts xs). in_window (fst p)"
    using assms(1) by (auto simp: list_all_iff dest: set_zip_leftD)
  then have "filter (\<lambda>p. in_window (fst p)) (zip ts xs) = zip ts xs"
    by (simp only: filter_True)
  then show ?thesis
    using assms(2) by (simp add: sel_time_def)
qed

lemma sel_time_month_labels:
  "n \<le> 432 \<Longrightarrow> length xs = n \<Longrightarrow> sel_time (month_labels n) xs = xs"
  by (rule sel_time_all) (auto simp: month_labels_def list_all_iff in_window_month_labels)

lemma xr_sum_replicate_Fin: "xr_sum (replicate n (Fin a)) = Fin (real n * a)"
  by (induction n) (simp_all add: xr_sum_Cons algebra_simps)

lemma xr_sum_replicate_NaN: "xr_sum (replicate n NaN) = Fin 0"
  by (induction n) (simp_all add: xr_sum_Cons)

lemma xr_count_replicate: "xr_count (replicate n v) = (if v = NaN then 0 else n)"
  by (simp add: xr_count_def)

lemma xr_count_append: "xr_count (xs @ ys) = xr_count xs + xr_count ys"
  by (simp add: xr_count_def)

lemma xr_where_replicate: "xr_where P (replicate n v) = replicate n (if P v then v else NaN)"
  by (simp add: xr_where_def)

lemma xr_where_append: "xr_where P (xs @ ys) = xr_where P xs @ xr_where P ys"
  by (simp add: xr_where_def)

lemma fmul_NaN [simp]: "fmul v NaN = NaN"
  by (cases v) simp_all

lemma fmul_one [simp]: "fmul (Fin a) (Fin 1) = Fin a"
  by simp

lemma qc_series_masked:
  "count_tdim (xr_where (\<lambda>v. fle v 2.51) s) \<le> 20 \<Longrightarrow> list_all (\<lambda>v. v = NaN) (qc_series s)"
  by (simp add: qc_series_def mincount_def list_all_iff)

lemma xr_where_NaN: "list_all (\<lambda>v. v = NaN) s \<Longrightarrow> list_all (\<lambda>v. v = NaN) (xr_where P s)"
  by (auto simp: xr_where_def list_all_iff)

lemma xr_count_all_NaN: "list_all (\<lambda>v. v = NaN) s \<Longrightarrow> xr_count s = 0"
  by (simp add: xr_count_def list_all_iff)

lemma xr_mean_all_NaN: "list_all (\<lambda>v. v = NaN) s \<Longrightarrow> xr_mean s = NaN"
  by (simp add: xr_mean_def xr_count_all_NaN xr_sum_all_NaN inf_of_sign_def)

lemma masked_cell_metrics:
  assumes "c < length obs" and "c < length model" and "c < length mean"
    and "list_all (\<lambda>v. v = NaN) (obs ! c)"
  shows "mef_annual obs model mean ! c = NaN"
    and "list_all (\<lambda>p. snd p = NaN) (mef_monthly ts obs model mean ! c)"
    and "list_all (\<lambda>p. snd p = NaN) (mef_seasonal ts obs model mean ! c)"
proof -
  have e: "list_all (\<lambda>v. v = NaN) (sq_err (obs ! c) (model ! c))"
    using assms(4) by (rule sq_err_obs_NaN)
  have d: "list_all (\<lambda>v. v = NaN) (sq_dev (obs ! c) (mean ! c))"
    using assms(4) by (rule sq_dev_obs_NaN)
  show "mef_annual obs model mean ! c = NaN"
    using assms by (simp add: mef_annual_nth xr_sum_all_NaN [OF e] xr_sum_all_NaN [OF d] mef_zero_zero)
  show "list_all (\<lambda>p. snd p = NaN) (mef_monthly ts obs model mean ! c)"
    using assms
    by (simp add: mef_monthly_nth group_sum_all_NaN [OF e] group_sum_all_NaN [OF d]
        mef_zero_zero list_all_iff)
  show "list_all (\<lambda>p. snd p = NaN) (mef_seasonal ts obs model mean ! c)"
    using assms
    by (simp add: mef_seasonal_nth group_sum_all_NaN [OF e] group_sum_all_NaN [OF d]
        mef_zero_zero list_all_iff)
qed

text \<open>
  Claim C8. A grid cell with at most 20 observations above zero among the valid ones of
  the time window is not-a-number at every time step of \<^verbatim>\<open>obs_da\<close>, whatever variation is
  selected; it is not-a-number in \<^verbatim>\<open>o_mean\<close>, and for every model its annual value and
  all its monthly and seasonal values are not-a-number.
\<close>

theorem count_threshold:
  assumes "c < length (cdr_seaice_conc_monthly obs_ds)"
    and "count_tdim (xr_where (\<lambda>v. fle v 2.51)
           (sel_time (obs_tdim obs_ds) (cdr_seaice_conc_monthly obs_ds ! c))) \<le> 20"
  shows "list_all (\<lambda>v. v = NaN) (obs_da (observations var obs_ds) ! c)
       \<and> o_mean (observations var obs_ds) ! c = NaN
       \<and> (\<forall>model_da model. c < length model_da \<longrightarrow>
             MEF_a (metrics (observations var obs_ds) model_da model) ! c = NaN
           \<and> list_all (\<lambda>p. snd p = NaN) (MEF_m (metrics (observations var obs_ds) model_da model) ! c)
           \<and> list_all (\<lambda>p. snd p = NaN) (MEF_s (metrics (observations var obs_ds) model_da model) ! c))"
proof -
  let ?b = "observations var obs_ds"
  let ?s = "sel_time (obs_tdim obs_ds) (cdr_seaice_conc_monthly obs_ds ! c)"
  have q: "list_all (\<lambda>v. v = NaN) (qc_series ?s)"
    using assms(2) by (rule qc_series_masked)
  have da: "obs_da ?b ! c = xr_where (keeps var) (qc_series ?s)"
    using assms(1) by (simp add: observations_def cell3b_def cell3_def)
  have masked: "list_all (\<lambda>v. v = NaN) (obs_da ?b ! c)"
    unfolding da using q by (rule xr_where_NaN)
  have mean: "o_mean ?b ! c = NaN"
    using assms(1) q by (simp add: observations_def cell3b_def cell3_def xr_mean_all_NaN)
  have lo: "c < length (obs_da ?b)" and lm: "c < length (o_mean ?b)"
    using assms(1) by (simp_all add: observations_def cell3b_def cell3_def)
  have "MEF_a (metrics ?b model_da model) ! c = NaN
      \<and> list_all (\<lambda>p. snd p = NaN) (MEF_m (metrics ?b model_da model) ! c)
      \<and> list_all (\<lambda>p. snd p = NaN) (MEF_s (metrics ?b model_da model) ! c)"
    if "c < length model_da" for model_da model
    using masked_cell_metrics [OF lo that lm masked] by (simp add: metrics_def)
  then show ?thesis using masked mean by blast
qed

theorem count_threshold_witness:
  "list_all (\<lambda>v. v = NaN) (obs_da (observations L15
      \<lparr>obs_tdim = [(1978, 12), (1979, 1)], cdr_seaice_conc_monthly = [[Fin 0.5, Fin 3]]\<rparr>) ! 0)
   \<and> o_mean (observations L15
      \<lparr>obs_tdim = [(1978, 12), (1979, 1)], cdr_seaice_conc_monthly = [[Fin 0.5, Fin 3]]\<rparr>) ! 0
     = NaN
   \<and> MEF_a (metrics (observations L15
      \<lparr>obs_tdim = [(1978, 12), (1979, 1)], cdr_seaice_conc_monthly = [[Fin 0.5, Fin 3]]\<rparr>)
      [[Fin 0.4, Fin 0.3]] ''CMCC-CM2-HR4'') ! 0 = NaN"
proof -
  let ?O = "\<lparr>obs_tdim = [(1978, 12), (1979, 1)], cdr_seaice_conc_monthly = [[Fin 0.5, Fin 3]]\<rparr>"
  have c: "0 < length (cdr_seaice_conc_monthly ?O)"
    by simp
  have n: "count_tdim (xr_where (\<lambda>v. fle v 2.51)
      (sel_time (obs_tdim ?O) (cdr_seaice_conc_monthly ?O ! 0))) \<le> 20"
    by (simp add: sel_time_def in_window_def count_tdim_def xr_where_def xr_count_def)
  note T = count_threshold [OF c n, of L15]
  have m: "0 < length [[Fin 0.4, Fin 0.3]]"
    by simp
  show ?thesis
    by (intro conjI, rule T [THEN conjunct1], rule T [THEN conjunct2, THEN conjunct1],
        rule T [THEN conjunct2, THEN conjunct2, rule_format, OF m, THEN conjunct1])
qed

text \<open>Whatever variation is selected, \<^verbatim>\<open>o_mean\<close> is the mean of the series cell 3 left;
  it is the mean of the series the metrics use when no variation is selected.\<close>

lemma o_mean_unfiltered:
  "o_mean (observations var obs_ds) = map xr_mean (obs_da (cell3 obs_ds))"
  by (simp add: observations_def cell3b_def cell3_def Let_def)

lemma o_mean_DEF:
  "o_mean (observations DEF obs_ds) = map xr_mean (obs_da (observations DEF obs_ds))"
  by (simp add: observations_def cell3b_def cell3_def Let_def xr_where_def)

text \<open>
  Claim C2. The comment of cell 3b says that the mean must be taken after values are
  excluded, but cell 3 has taken \<^verbatim>\<open>o_mean\<close> before cell 3b runs, and cell 3b leaves it as
  it is. With the variation L15 and a cell that holds 0.1 in 216 months and 0.9 in the
  other 216, \<^verbatim>\<open>o_mean\<close> is 0.5, the mean of the unfiltered series, while the mean of the
  filtered series is 0.9.
\<close>

theorem mean_before_filter:
  "o_mean (observations L15
      \<lparr>obs_tdim = month_labels 432,
       cdr_seaice_conc_monthly = [replicate 216 (Fin 0.1) @ replicate 216 (Fin 0.9)]\<rparr>)
     = [Fin 0.5]
   \<and> map xr_mean (obs_da (observations L15
      \<lparr>obs_tdim = month_labels 432,
       cdr_seaice_conc_monthly = [replicate 216 (Fin 0.1) @ replicate 216 (Fin 0.9)]\<rparr>))
     = [Fin 0.9]"
  by (simp add: observations_def cell3b_def cell3_def sel_time_month_labels qc_series_def
      count_tdim_def mincount_def xr_where_append xr_where_replicate xr_count_append
      xr_count_replicate xr_mean_def xr_sum_append xr_sum_replicate_Fin xr_sum_replicate_NaN)

section \<open>Runs of the notebook on a model given on the reference grid\<close>

lemma overlay_fold_all:
  assumes "length f = length lmask" and "list_all (\<lambda>s. length s = n) f"
  shows "fold (overlay_step lmask) [0..<n] f = map2 (\<lambda>s m. map (\<lambda>v. fmul v m) s) f lmask"
proof (rule nth_equalityI)
  note F = overlay_fold [OF assms(1), of n]
  show "length (fold (overlay_step lmask) [0..<n] f)
      = length (map2 (\<lambda>s m. map (\<lambda>v. fmul v m) s) f lmask)"
    using F assms(1) by simp
  fix c assume "c < length (fold (overlay_step lmask) [0..<n] f)"
  then have c: "c < length f" using F by simp
  then have "length (f ! c) = n"
    using assms(2) by (simp add: list_all_length)
  then show "fold (overlay_step lmask) [0..<n] f ! c
      = map2 (\<lambda>s m. map (\<lambda>v. fmul v m) s) f lmask ! c"
    using F c assms(1) by simp
qed

lemma cell9_single:
  assumes "2 < length (split_dot key)"
    and "normalize ext lmask (obs_time b) (subset_bbox ext ref_ds the_bbox) ds = Inr model_da"
    and "length model_da = length (obs_da b)"
  shows "cell9 ext ref_ds lmask b [(key, ds)] = Inr [metrics b model_da (split_dot key ! 2)]"
  using assms
  by (simp add: cell9_def Let_def iteration_def model_step_def xr_concat_def
      del: split_dot.simps)

lemma normalize_same_grid:
  assumes "length (m_time ds) = n" and "n \<le> 432" and "m_time ds = month_labels n"
    and "list_all (\<lambda>s. length s = n) (siconc ds)" and "length (siconc ds) = length lmask"
  shows "normalize same_grid lmask (month_labels n) ds_tgt ds
     = Inr (map2 (\<lambda>s m. map (\<lambda>v. fdiv (fmul (if fle v 100 then v else NaN) m) (Fin 100)) s)
              (siconc ds) lmask)"
proof -
  have st: "sel_time (m_time ds) (m_time ds) = month_labels n"
    using assms by (simp add: sel_time_month_labels)
  have ss: "map (\<lambda>s. xr_where (\<lambda>v. fle v 100) (sel_time (m_time ds) s)) (siconc ds)
      = map (xr_where (\<lambda>v. fle v 100)) (siconc ds)"
    using assms by (auto simp: list_all_iff sel_time_month_labels)
  have sic: "sic (regridded same_grid ds_tgt ds) = map (xr_where (\<lambda>v. fle v 100)) (siconc ds)"
    by (simp add: regridded_def prepare_model_def same_grid_def Let_def ss)
  have ov: "fold (overlay_step lmask) [0..<n] (map (xr_where (\<lambda>v. fle v 100)) (siconc ds))
      = map2 (\<lambda>s m. map (\<lambda>v. fmul v m) s) (map (xr_where (\<lambda>v. fle v 100)) (siconc ds)) lmask"
    using assms by (intro overlay_fold_all) (simp_all add: list_all_iff xr_where_def)
  show ?thesis
    using assms(5)
    by (simp add: normalize_eq st sic ov zip_map1 xr_where_def comp_def case_prod_beta)
qed

lemma split_dot_HR4:
  "split_dot ''HighResMIP.CMCC.CMCC-CM2-HR4.hist-1950.SImon.gn''
     = [''HighResMIP'', ''CMCC'', ''CMCC-CM2-HR4'', ''hist-1950'', ''SImon'', ''gn'']"
  by simp

text \<open>A cell that holds the observation 1 in every month has the mean 1 and the
  denominator 0; against a model that holds 50 percent the annual value is minus infinity,
  not not-a-number.\<close>

theorem zero_denominator_counterexample:
  "sum_tdim (MEF_den
      (obs_da (observations DEF
         \<lparr>obs_tdim = month_labels 432, cdr_seaice_conc_monthly = [replicate 432 (Fin 1)]\<rparr>))
      (o_mean (observations DEF
         \<lparr>obs_tdim = month_labels 432, cdr_seaice_conc_monthly = [replicate 432 (Fin 1)]\<rparr>)))
     = [Fin 0]
   \<and> (case notebook same_grid DEF \<lparr>ref_grid = [(0, - 60)], landmask = [Fin 0]\<rparr>
          \<lparr>obs_tdim = month_labels 432, cdr_seaice_conc_monthly = [replicate 432 (Fin 1)]\<rparr>
          [(''HighResMIP.CMCC.CMCC-CM2-HR4.hist-1950.SImon.gn'',
            \<lparr>m_grid = [(0, - 60)], m_time = month_labels 432,
             siconc = [replicate 432 (Fin 50)]\<rparr>)] of
        Inl e \<Rightarrow> False
      | Inr combined_ds \<Rightarrow> map MEF_a combined_ds = [[NInf]])"
proof -
  let ?O = "\<lparr>obs_tdim = month_labels 432, cdr_seaice_conc_monthly = [replicate 432 (Fin 1)]\<rparr>"
  let ?R = "\<lparr>ref_grid = [(0, - 60)], landmask = [Fin 0]\<rparr>"
  let ?M = "\<lparr>m_grid = [(0, - 60)], m_time = month_labels 432, siconc = [replicate 432 (Fin 50)]\<rparr>"
  let ?B = "\<lparr>obs_time = month_labels 432, obs_da = [replicate 432 (Fin 1)], o_mean = [Fin 1]\<rparr>"
  let ?key = "''HighResMIP.CMCC.CMCC-CM2-HR4.hist-1950.SImon.gn''"
  have B: "observations DEF ?O = ?B"
    by (simp add: observations_def cell3b_def cell3_def sel_time_month_labels qc_series_def
        count_tdim_def mincount_def xr_where_replicate xr_count_replicate xr_mean_def
        xr_sum_replicate_Fin)
  have N: "normalize same_grid (mask_of ?R) (obs_time ?B) (subset_bbox same_grid ?R the_bbox) ?M
      = Inr [replicate 432 (Fin (1 / 2))]"
    using normalize_same_grid [of ?M 432 "mask_of ?R" "subset_bbox same_grid ?R the_bbox"]
    by (simp add: mask_of_def)
  have run: "notebook same_grid DEF ?R ?O [(?key, ?M)]
      = Inr [metrics ?B [replicate 432 (Fin (1 / 2))] (split_dot ?key ! 2)]"
    unfolding notebook_def B by (rule cell9_single [OF _ N]) (simp_all del: split_dot.simps add: split_dot_HR4)
  have den: "sum_tdim (MEF_den (obs_da ?B) (o_mean ?B)) = [Fin 0]"
    by (simp add: sum_tdim_def MEF_den_def sq_dev_def xr_sum_replicate_Fin)
  have a: "MEF_a (metrics ?B [replicate 432 (Fin (1 / 2))] (split_dot ?key ! 2)) = [NInf]"
    by (simp add: metrics_def mef_annual_def sum_tdim_def MEF_num_def MEF_den_def sq_err_def
        sq_dev_def xr_sum_replicate_Fin mef_def inf_of_sign_def fsub_def del: split_dot.simps)
  show ?thesis
    unfolding B run using den a by (simp del: split_dot.simps)
qed

section \<open>The land mask\<close>

lemma land_cell_model:
  assumes "normalize ext lmask obs_t ds_tgt ds = Inr model_da"
    and "c < length lmask" and "lmask ! c = NaN"
    and "c < length (sic (regridded ext ds_tgt ds))"
    and "length (sic (regridded ext ds_tgt ds) ! c) = sic_len (regridded ext ds_tgt ds)"
  shows "c < length model_da \<and> list_all (\<lambda>v. v = NaN) (model_da ! c)"
proof -
  let ?f = "sic (regridded ext ds_tgt ds)"
  let ?n = "length obs_t"
  from assms(1) have
    shape: "\<not> (0 < length (sel_time (m_time ds) (m_time ds)) \<and> length ?f \<noteq> length lmask)" and
    tlen: "length (sel_time (m_time ds) (m_time ds)) = ?n" and
    da: "model_da = map (map (\<lambda>v. fdiv v (Fin 100))) (fold (overlay_step lmask) [0..<?n] ?f)"
    by (simp_all add: normalize_eq split: if_splits)
  have slen: "length (?f ! c) = ?n"
    using assms(5) tlen by simp
  show ?thesis
  proof (cases "?n = 0")
    case True
    then show ?thesis
      using da slen assms(4) by simp
  next
    case False
    then have len: "length ?f = length lmask"
      using shape tlen by simp
    note F = overlay_fold [OF len, of ?n]
    have "fold (overlay_step lmask) [0..<?n] ?f ! c = map (\<lambda>v. fmul v NaN) (?f ! c)"
      using F assms(3,4) slen by simp
    then show ?thesis
      using da F assms(4) by (simp add: list_all_iff)
  qed
qed

text \<open>
  Claim C7, as amended. At a grid cell whose land mask value is not-a-number, the
  normalized series of every model (whose regridded series has one value per time step) is
  not-a-number at every time step, and so is every squared error of the cell: the cell
  adds no term to a numerator, the binned ones included. The annual value of the cell,
  and its value in a month or season group, is not-a-number where the denominator of
  that value is zero, as it is where the observations of the cell are not-a-number
  throughout. The binned metric has no cell axis, and its values need not be
  not-a-number.
\<close>

theorem land_mask_propagation:
  assumes "normalize ext lmask obs_t ds_tgt ds = Inr model_da"
    and "c < length lmask" and "lmask ! c = NaN"
    and "c < length (sic (regridded ext ds_tgt ds))"
    and "length (sic (regridded ext ds_tgt ds) ! c) = sic_len (regridded ext ds_tgt ds)"
    and "c < length obs" and "c < length mean"
  shows "list_all (\<lambda>v. v = NaN) (model_da ! c)
       \<and> list_all (\<lambda>v. v = NaN) (MEF_num obs model_da ! c)
       \<and> (sum_tdim (MEF_den obs mean) ! c = Fin 0 \<longrightarrow> mef_annual obs model_da mean ! c = NaN)
       \<and> (\<forall>k. k \<in> set (month_keys ts)
              \<and> group_sum (map month_of ts) k (MEF_den obs mean ! c) = Fin 0 \<longrightarrow>
              map_of (mef_monthly ts obs model_da mean ! c) k = Some NaN)
       \<and> (\<forall>k. k \<in> set (season_keys ts)
              \<and> group_sum (map season_of ts) k (MEF_den obs mean ! c) = Fin 0 \<longrightarrow>
              map_of (mef_seasonal ts obs model_da mean ! c) k = Some NaN)"
proof -
  from land_cell_model [OF assms(1-5)] have
    cm: "c < length model_da" and nan: "list_all (\<lambda>v. v = NaN) (model_da ! c)"
    by simp_all
  have e: "list_all (\<lambda>v. v = NaN) (sq_err (obs ! c) (model_da ! c))"
    using nan by (rule sq_err_model_NaN)
  have num: "MEF_num obs model_da ! c = sq_err (obs ! c) (model_da ! c)"
    using assms(6) cm by (simp add: MEF_num_nth)
  have den: "MEF_den obs mean ! c = sq_dev (obs ! c) (mean ! c)"
    using assms(6,7) by (simp add: MEF_den_nth)
  have a: "mef_annual obs model_da mean ! c = NaN"
    if "sum_tdim (MEF_den obs mean) ! c = Fin 0"
    using that assms(6,7) cm
    by (simp add: mef_annual_nth sum_tdim_nth den xr_sum_all_NaN [OF e] mef_zero_zero)
  have m: "map_of (mef_monthly ts obs model_da mean ! c) k = Some NaN"
    if "k \<in> set (month_keys ts) \<and> group_sum (map month_of ts) k (MEF_den obs mean ! c) = Fin 0"
    for k
    using that assms(6,7) cm
    by (simp add: mef_monthly_nth map_of_tabulate den group_sum_all_NaN [OF e] mef_zero_zero)
  have s: "map_of (mef_seasonal ts obs model_da mean ! c) k = Some NaN"
    if "k \<in> set (season_keys ts) \<and> group_sum (map season_of ts) k (MEF_den obs mean ! c) = Fin 0"
    for k
    using that assms(6,7) cm
    by (simp add: mef_seasonal_nth map_of_tabulate den group_sum_all_NaN [OF e] mef_zero_zero)
  show ?thesis
    using nan e a m s unfolding num by blast
qed

theorem land_mask_propagation_witness:
  "normalize same_grid [NaN] [(1978, 12), (1979, 2)] \<lparr>ref_grid = [(0, - 60)], landmask = [Fin 1]\<rparr>
      \<lparr>m_grid = [(0, - 60)], m_time = [(1978, 12), (1979, 2)], siconc = [[Fin 50, Fin 60]]\<rparr>
     = Inr [[NaN, NaN]]
   \<and> mef_annual [[NaN, NaN]] [[NaN, NaN]] [NaN] ! 0 = NaN
   \<and> map_of (mef_monthly [(1978, 12), (1979, 2)] [[NaN, NaN]] [[NaN, NaN]] [NaN] ! 0) 12 = Some NaN
   \<and> map_of (mef_seasonal [(1978, 12), (1979, 2)] [[NaN, NaN]] [[NaN, NaN]] [NaN] ! 0) DJF = Some NaN"
proof -
  let ?R = "\<lparr>ref_grid = [(0, - 60)], landmask = [Fin 1]\<rparr>"
  let ?M = "\<lparr>m_grid = [(0, - 60)], m_time = [(1978, 12), (1979, 2)], siconc = [[Fin 50, Fin 60]]\<rparr>"
  let ?ts = "[(1978, 12), (1979, 2)] :: timestamp list"
  have N: "normalize same_grid [NaN] ?ts ?R ?M = Inr [[NaN, NaN]]"
    by (simp add: normalize_eq regridded_def prepare_model_def same_grid_def sel_time_def
        in_window_def overlay_step_def xr_where_def)
  have r: "0 < length (sic (regridded same_grid ?R ?M))"
      "length (sic (regridded same_grid ?R ?M) ! 0) = sic_len (regridded same_grid ?R ?M)"
    by (simp_all add: regridded_def prepare_model_def same_grid_def sel_time_def in_window_def
        xr_where_def)
  note T = land_mask_propagation [OF N _ _ r, of "[[NaN, NaN]]" "[NaN]" ?ts]
  have a: "mef_annual [[NaN, NaN]] [[NaN, NaN]] [NaN] ! 0 = NaN"
    using T by (simp add: sum_tdim_def MEF_den_def sq_dev_def xr_sum_Cons)
  have m: "map_of (mef_monthly ?ts [[NaN, NaN]] [[NaN, NaN]] [NaN] ! 0) 12 = Some NaN"
    using T [THEN conjunct2, THEN conjunct2, THEN conjunct2, THEN conjunct1, rule_format, of 12]
    by (simp add: month_keys_def month_of_def group_sum_def MEF_den_def sq_dev_def xr_sum_Cons)
  have s: "map_of (mef_seasonal ?ts [[NaN, NaN]] [[NaN, NaN]] [NaN] ! 0) DJF = Some NaN"
    using T [THEN conjunct2, THEN conjunct2, THEN conjunct2, THEN conjunct2, rule_format, of DJF]
    by (simp add: season_keys_def season_of_def group_sum_def MEF_den_def sq_dev_def xr_sum_Cons)
  show ?thesis
    by (intro conjI N a m s)
qed

text \<open>A grid of a land cell and an ocean cell, both with observations that vary in
  time: the annual value of the land cell is 1 and the binned value of the first month
  is a number.\<close>

lemma sq_err_nth:
  "t < length a \<Longrightarrow> t < length b \<Longrightarrow> sq_err a b ! t = fsq (fsub (a ! t) (b ! t))"
  by (simp add: sq_err_def)

lemma sq_dev_nth: "t < length a \<Longrightarrow> sq_dev a mu ! t = fsq (fsub (a ! t) mu)"
  by (simp add: sq_dev_def)

theorem land_mask_counterexample:
  "mask_of \<lparr>ref_grid = [(0, - 60), (1, - 60)], landmask = [Fin 1, Fin 0]\<rparr> ! 0 = NaN
   \<and> (case notebook same_grid DEF \<lparr>ref_grid = [(0, - 60), (1, - 60)], landmask = [Fin 1, Fin 0]\<rparr>
          \<lparr>obs_tdim = month_labels 432,
           cdr_seaice_conc_monthly = [replicate 216 (Fin 0.2) @ replicate 216 (Fin 0.4),
                                      replicate 216 (Fin 0.2) @ replicate 216 (Fin 0.4)]\<rparr>
          [(''HighResMIP.CMCC.CMCC-CM2-HR4.hist-1950.SImon.gn'',
            \<lparr>m_grid = [(0, - 60), (1, - 60)], m_time = month_labels 432,
             siconc = [replicate 432 (Fin 50), replicate 432 (Fin 50)]\<rparr>)] of
        Inl e \<Rightarrow> False
      | Inr combined_ds \<Rightarrow>
          map (\<lambda>ms. MEF_a ms ! 0) combined_ds = [Fin 1]
        \<and> map (\<lambda>ms. MEF_b ms ! 0) combined_ds = [Fin (- 7 / 2)])"
proof -
  let ?S = "replicate 216 (Fin (1 / 5)) @ replicate 216 (Fin (2 / 5))"
  let ?O = "\<lparr>obs_tdim = month_labels 432,
           cdr_seaice_conc_monthly = [replicate 216 (Fin 0.2) @ replicate 216 (Fin 0.4),
                                      replicate 216 (Fin 0.2) @ replicate 216 (Fin 0.4)]\<rparr>"
  let ?R = "\<lparr>ref_grid = [(0, - 60), (1, - 60)], landmask = [Fin 1, Fin 0]\<rparr>"
  let ?M = "\<lparr>m_grid = [(0, - 60), (1, - 60)], m_time = month_labels 432,
             siconc = [replicate 432 (Fin 50), replicate 432 (Fin 50)]\<rparr>"
  let ?B = "\<lparr>obs_time = month_labels 432, obs_da = [?S, ?S], o_mean = [Fin (3 / 10), Fin (3 / 10)]\<rparr>"
  let ?key = "''HighResMIP.CMCC.CMCC-CM2-HR4.hist-1950.SImon.gn''"
  let ?da = "[replicate 432 NaN, replicate 432 (Fin (1 / 2))]"
  have B: "observations DEF ?O = ?B"
    by (simp add: observations_def cell3b_def cell3_def sel_time_month_labels qc_series_def
        count_tdim_def mincount_def xr_where_append xr_where_replicate xr_count_append
        xr_count_replicate xr_mean_def xr_sum_append xr_sum_replicate_Fin)
  have mk: "mask_of ?R = [NaN, Fin 1]"
    by (simp add: mask_of_def)
  have N: "normalize same_grid (mask_of ?R) (obs_time ?B) (subset_bbox same_grid ?R the_bbox) ?M
      = Inr ?da"
    using normalize_same_grid [of ?M 432 "mask_of ?R" "subset_bbox same_grid ?R the_bbox"]
    by (simp add: mk)
  have run: "notebook same_grid DEF ?R ?O [(?key, ?M)]
      = Inr [metrics ?B ?da (split_dot ?key ! 2)]"
    unfolding notebook_def B
    by (rule cell9_single [OF _ N]) (simp_all del: split_dot.simps add: split_dot_HR4)
  have nan: "list_all (\<lambda>v. v = NaN) (replicate 432 NaN)"
    by (simp add: list_all_iff)
  have a: "mef_annual [?S, ?S] ?da [Fin (3 / 10), Fin (3 / 10)] ! 0 = Fin 1"
    by (simp add: mef_annual_nth xr_sum_all_NaN [OF sq_err_model_NaN [OF nan]] sq_dev_def
        xr_sum_append xr_sum_replicate_Fin mef_def)
  have b: "mef_binned 432 [?S, ?S] ?da [Fin (3 / 10), Fin (3 / 10)] ! 0 = Fin (- 7 / 2)"
    by (simp add: mef_binned_nth sum_xy_nth MEF_num_def MEF_den_def sq_err_nth sq_dev_nth
        nth_append xr_sum_Cons mef_def)
  show ?thesis
    unfolding run using mk a b by (simp add: metrics_def del: split_dot.simps)
qed

section \<open>Runs of the notebook on the models of the list\<close>

text \<open>Cell 9 succeeds on a dictionary whose keys have three dot-separated parts at
  least and whose datasets normalize to the grid of the observations; here every key
  holds the same dataset.\<close>

lemma source_id_loop_ok:
  "\<forall>key \<in> set keys. 2 < length (split_dot key) \<Longrightarrow>
   source_id_loop keys acc = Inr (acc @ map (\<lambda>key. split_dot key ! 2) keys)"
  by (induction keys arbitrary: acc) (simp_all add: Let_def del: split_dot.simps)

lemma mef_loop_uniform:
  assumes "\<forall>km \<in> set kms. map_of ddict (fst km) = Some ds"
    and "normalize ext lmask (obs_time b) (subset_bbox ext ref_ds the_bbox) ds = Inr model_da"
    and "length model_da = length (obs_da b)"
  shows "mef_loop ext ref_ds lmask b ddict kms MEF
     = Inr (MEF @ map (\<lambda>km. metrics b model_da (snd km)) kms)"
  using assms(1)
  by (induction kms arbitrary: MEF) (simp_all add: iteration_def model_step_def assms(2,3))

lemma cell9_uniform:
  assumes "\<forall>key \<in> set keys. 2 < length (split_dot key)" and "keys \<noteq> []"
    and "normalize ext lmask (obs_time b) (subset_bbox ext ref_ds the_bbox) ds = Inr model_da"
    and "length model_da = length (obs_da b)"
  shows "cell9 ext ref_ds lmask b (map (\<lambda>key. (key, ds)) keys)
     = Inr (map (\<lambda>key. metrics b model_da (split_dot key ! 2)) keys)"
proof -
  let ?ddict = "map (\<lambda>key. (key, ds)) keys"
  let ?ids = "map (\<lambda>key. split_dot key ! 2) keys"
  have ml: "map fst ?ddict = keys"
    by (simp add: comp_def)
  have sid: "source_id_loop keys [] = Inr ?ids"
    using source_id_loop_ok [OF assms(1), of "[]"] by simp
  have look: "\<forall>km \<in> set (zip keys ?ids). map_of ?ddict (fst km) = Some ds"
    by (auto dest!: set_zip_leftD simp: map_of_tabulate)
  have loop: "mef_loop ext ref_ds lmask b ?ddict (zip keys ?ids) []
      = Inr (map (\<lambda>km. metrics b model_da (snd km)) (zip keys ?ids))"
    using mef_loop_uniform [OF look assms(3,4), of "[]"] by simp
  have mm: "map (\<lambda>km. metrics b model_da (snd km)) (zip keys ?ids)
      = map (\<lambda>key. metrics b model_da (split_dot key ! 2)) keys"
    by (simp add: zip_map2 zip_same_conv_map comp_def del: split_dot.simps)
  have "cell9 ext ref_ds lmask b ?ddict
      = (case mef_loop ext ref_ds lmask b ?ddict (zip keys ?ids) [] of
           Inl e \<Rightarrow> Inl e
         | Inr MEF \<Rightarrow> xr_concat MEF)"
    unfolding cell9_def Let_def ml sid by simp
  also have "\<dots> = xr_concat (map (\<lambda>key. metrics b model_da (split_dot key ! 2)) keys)"
    unfolding loop mm by simp
  also have "\<dots> = Inr (map (\<lambda>key. metrics b model_da (split_dot key ! 2)) keys)"
    using assms(2) by (simp add: xr_concat_def)
  finally show ?thesis .
qed

text \<open>The observations and the model of the runs below: one cell that holds the
  observation 1 in each of the 432 months, and a model on the reference grid that holds
  50 percent.\<close>

lemma observations_ones:
  "observations DEF
      \<lparr>obs_tdim = month_labels 432, cdr_seaice_conc_monthly = [replicate 432 (Fin 1)]\<rparr>
     = \<lparr>obs_time = month_labels 432, obs_da = [replicate 432 (Fin 1)], o_mean = [Fin 1]\<rparr>"
  by (simp add: observations_def cell3b_def cell3_def sel_time_month_labels qc_series_def
      count_tdim_def mincount_def xr_where_replicate xr_count_replicate xr_mean_def
      xr_sum_replicate_Fin)

lemma normalize_half:
  "normalize same_grid (mask_of \<lparr>ref_grid = [(0, - 60)], landmask = [Fin 0]\<rparr>) (month_labels 432)
      (subset_bbox same_grid \<lparr>ref_grid = [(0, - 60)], landmask = [Fin 0]\<rparr> the_bbox)
      \<lparr>m_grid = [(0, - 60)], m_time = month_labels 432, siconc = [replicate 432 (Fin 50)]\<rparr>
     = Inr [replicate 432 (Fin (1 / 2))]"
  using normalize_same_grid [of
      "\<lparr>m_grid = [(0, - 60)], m_time = month_labels 432, siconc = [replicate 432 (Fin 50)]\<rparr>" 432
      "mask_of \<lparr>ref_grid = [(0, - 60)], landmask = [Fin 0]\<rparr>"
      "subset_bbox same_grid \<lparr>ref_grid = [(0, - 60)], landmask = [Fin 0]\<rparr> the_bbox"]
  by (simp add: mask_of_def)

text \<open>A run whose loader delivers the models in the order of \<^verbatim>\<open>mods\<close>.\<close>

lemma ordered_fetch_keys:
  "map fst (ordered_fetch ds mods)
     = [''HighResMIP.X.CMCC-CM2-HR4.hist-1950.SImon.gn'',
        ''HighResMIP.X.CMCC-CM2-VHR4.hist-1950.SImon.gn'',
        ''HighResMIP.X.HadGEM3-GC31-HM.hist-1950.SImon.gn'',
        ''HighResMIP.X.HadGEM3-GC31-LL.hist-1950.SImon.gn'',
        ''HighResMIP.X.HadGEM3-GC31-MM.hist-1950.SImon.gn'',
        ''HighResMIP.X.GFDL-CM4C192.hist-1950.SImon.gn'']"
  by (simp add: ordered_fetch_def mods_def)

lemma ordered_fetch_uniform:
  "ordered_fetch ds mods = map (\<lambda>key. (key, ds)) (map fst (ordered_fetch ds mods))"
  by (simp add: ordered_fetch_def comp_def)

lemma split_dot_ordered:
  "map (\<lambda>key. split_dot key ! 2) (map fst (ordered_fetch ds mods)) = mods"
  "\<forall>key \<in> set (map fst (ordered_fetch ds mods)). 2 < length (split_dot key)"
  unfolding ordered_fetch_keys by (simp_all add: mods_def)

theorem models_axis_witness:
  "\<exists>combined_ds.
     notebook_run
        (ordered_fetch
           \<lparr>m_grid = [(0, - 60)], m_time = month_labels 432, siconc = [replicate 432 (Fin 50)]\<rparr>)
        same_grid DEF \<lparr>ref_grid = [(0, - 60)], landmask = [Fin 0]\<rparr>
        \<lparr>obs_tdim = month_labels 432, cdr_seaice_conc_monthly = [replicate 432 (Fin 1)]\<rparr>
       = Inr combined_ds
     \<and> length combined_ds = 6
     \<and> map model_name combined_ds = mods"
proof -
  let ?M = "\<lparr>m_grid = [(0, - 60)], m_time = month_labels 432, siconc = [replicate 432 (Fin 50)]\<rparr>"
  let ?R = "\<lparr>ref_grid = [(0, - 60)], landmask = [Fin 0]\<rparr>"
  let ?O = "\<lparr>obs_tdim = month_labels 432, cdr_seaice_conc_monthly = [replicate 432 (Fin 1)]\<rparr>"
  let ?B = "\<lparr>obs_time = month_labels 432, obs_da = [replicate 432 (Fin 1)], o_mean = [Fin 1]\<rparr>"
  let ?c = "map (\<lambda>key. metrics ?B [replicate 432 (Fin (1 / 2))] (split_dot key ! 2))
      (map fst (ordered_fetch ?M mods))"
  have "cell9 same_grid ?R (mask_of ?R) ?B (map (\<lambda>key. (key, ?M)) (map fst (ordered_fetch ?M mods)))
      = Inr ?c"
  proof (rule cell9_uniform)
    show "\<forall>key \<in> set (map fst (ordered_fetch ?M mods)). 2 < length (split_dot key)"
      by (rule split_dot_ordered)
    show "map fst (ordered_fetch ?M mods) \<noteq> []"
      unfolding ordered_fetch_keys by simp
    show "normalize same_grid (mask_of ?R) (obs_time ?B) (subset_bbox same_grid ?R the_bbox) ?M
       = Inr [replicate 432 (Fin (1 / 2))]"
      using normalize_half by simp
    show "length [replicate 432 (Fin (1 / 2))] = length (obs_da ?B)"
      by simp
  qed
  then have run: "notebook_run (ordered_fetch ?M) same_grid DEF ?R ?O = Inr ?c"
    unfolding notebook_run_def notebook_def Let_def observations_ones
    by (simp only: ordered_fetch_uniform [symmetric])
  from models_axis [OF run]
  have len: "length ?c = length (ordered_fetch ?M mods)"
    and names: "map model_name ?c = map (\<lambda>key. split_dot key ! 2) (map fst (ordered_fetch ?M mods))"
    by blast+
  have len6: "length ?c = 6"
    unfolding len by (simp add: ordered_fetch_def mods_def)
  have names': "map model_name ?c = mods"
    unfolding names by (rule split_dot_ordered)
  show ?thesis
    by (rule exI [of _ ?c], intro conjI, rule run, rule len6, rule names')
qed

text \<open>
  The claim as the specification words it, that the order of the axis is the order of
  the list of models given to the run, does not hold. In the run whose output the
  notebook records, the keys of the dictionary come in another order than the names of
  \<^verbatim>\<open>mods\<close>: \<open>CMCC-CM2-VHR4\<close> before \<open>CMCC-CM2-HR4\<close>, and \<open>HadGEM3-GC31-LL\<close> before
  \<open>HadGEM3-GC31-HM\<close>. With a loader that delivers the keys in the recorded order the run
  succeeds, and the names along the \<open>models\<close> axis are in the recorded order, not in the
  order of \<^verbatim>\<open>mods\<close>.
\<close>

lemma split_dot_recorded:
  "map (\<lambda>key. split_dot key ! 2) recorded_mlist
     = [''CMCC-CM2-VHR4'', ''CMCC-CM2-HR4'', ''HadGEM3-GC31-LL'', ''HadGEM3-GC31-HM'',
        ''HadGEM3-GC31-MM'', ''GFDL-CM4C192'']"
  "\<forall>key \<in> set recorded_mlist. 2 < length (split_dot key)"
  by (simp_all add: recorded_mlist_def)

lemma recorded_fetch_mods:
  "recorded_fetch ds mods = map (\<lambda>key. (key, ds)) recorded_mlist"
proof -
  have "\<forall>key \<in> set recorded_mlist. split_dot key ! 2 \<in> set mods"
    by (simp add: recorded_mlist_def mods_def)
  then show ?thesis
    by (simp add: recorded_fetch_def del: split_dot.simps)
qed

lemma recorded_run:
  "notebook_run
      (recorded_fetch
         \<lparr>m_grid = [(0, - 60)], m_time = month_labels 432, siconc = [replicate 432 (Fin 50)]\<rparr>)
      same_grid DEF \<lparr>ref_grid = [(0, - 60)], landmask = [Fin 0]\<rparr>
      \<lparr>obs_tdim = month_labels 432, cdr_seaice_conc_monthly = [replicate 432 (Fin 1)]\<rparr>
     = Inr (map (\<lambda>key. metrics
          \<lparr>obs_time = month_labels 432, obs_da = [replicate 432 (Fin 1)], o_mean = [Fin 1]\<rparr>
          [replicate 432 (Fin (1 / 2))] (split_dot key ! 2)) recorded_mlist)"
  unfolding notebook_run_def notebook_def Let_def recorded_fetch_mods observations_ones
proof (rule cell9_uniform)
  show "\<forall>key \<in> set recorded_mlist. 2 < length (split_dot key)"
    by (rule split_dot_recorded)
  show "recorded_mlist \<noteq> []"
    by (simp add: recorded_mlist_def)
  show "normalize same_grid (mask_of \<lparr>ref_grid = [(0, - 60)], landmask = [Fin 0]\<rparr>)
      (obs_time \<lparr>obs_time = month_labels 432, obs_da = [replicate 432 (Fin 1)], o_mean = [Fin 1]\<rparr>)
      (subset_bbox same_grid \<lparr>ref_grid = [(0, - 60)], landmask = [Fin 0]\<rparr> the_bbox)
      \<lparr>m_grid = [(0, - 60)], m_time = month_labels 432, siconc = [replicate 432 (Fin 50)]\<rparr>
     = Inr [replicate 432 (Fin (1 / 2))]"
    using normalize_half by simp
  show "length [replicate 432 (Fin (1 / 2))]
      = length (obs_da \<lparr>obs_time = month_labels 432, obs_da = [replicate 432 (Fin 1)],
                        o_mean = [Fin 1]\<rparr>)"
    by simp
qed

theorem models_axis_counterexample:
  "map_sum (\<lambda>e. e) (map model_name)
     (notebook_run
        (recorded_fetch
           \<lparr>m_grid = [(0, - 60)], m_time = month_labels 432, siconc = [replicate 432 (Fin 50)]\<rparr>)
        same_grid DEF \<lparr>ref_grid = [(0, - 60)], landmask = [Fin 0]\<rparr>
        \<lparr>obs_tdim = month_labels 432, cdr_seaice_conc_monthly = [replicate 432 (Fin 1)]\<rparr>)
     = Inr [''CMCC-CM2-VHR4'', ''CMCC-CM2-HR4'', ''HadGEM3-GC31-LL'', ''HadGEM3-GC31-HM'',
            ''HadGEM3-GC31-MM'', ''GFDL-CM4C192'']
   \<and> [''CMCC-CM2-VHR4'', ''CMCC-CM2-HR4'', ''HadGEM3-GC31-LL'', ''HadGEM3-GC31-HM'',
      ''HadGEM3-GC31-MM'', ''GFDL-CM4C192''] \<noteq> mods"
proof
  have "map model_name (map (\<lambda>key. metrics
          \<lparr>obs_time = month_labels 432, obs_da = [replicate 432 (Fin 1)], o_mean = [Fin 1]\<rparr>
          [replicate 432 (Fin (1 / 2))] (split_dot key ! 2)) recorded_mlist)
      = map (\<lambda>key. split_dot key ! 2) recorded_mlist"
    by (simp add: metrics_def comp_def del: split_dot.simps)
  then show "map_sum (\<lambda>e. e) (map model_name)
     (notebook_run
        (recorded_fetch
           \<lparr>m_grid = [(0, - 60)], m_time = month_labels 432, siconc = [replicate 432 (Fin 50)]\<rparr>)
        same_grid DEF \<lparr>ref_grid = [(0, - 60)], landmask = [Fin 0]\<rparr>
        \<lparr>obs_tdim = month_labels 432, cdr_seaice_conc_monthly = [replicate 432 (Fin 1)]\<rparr>)
     = Inr [''CMCC-CM2-VHR4'', ''CMCC-CM2-HR4'', ''HadGEM3-GC31-LL'', ''HadGEM3-GC31-HM'',
            ''HadGEM3-GC31-MM'', ''GFDL-CM4C192'']"
    unfolding recorded_run by (simp only: map_sum.simps split_dot_recorded(1))
  show "[''CMCC-CM2-VHR4'', ''CMCC-CM2-HR4'', ''HadGEM3-GC31-LL'', ''HadGEM3-GC31-HM'',
      ''HadGEM3-GC31-MM'', ''GFDL-CM4C192''] \<noteq> mods"
    by (simp add: mods_def)
qed

end
